theory Spec2Isabelle
  imports Complex_Main
begin

section \<open>Python values shared by both scripts\<close>

text \<open>
  Exceptions of the two driver scripts. An \<open>AssertionError\<close> carries the line of the
  \<open>assert\<close> statement that failed, as the traceback reports it; \<open>KeyError\<close> and
  \<open>NameError\<close> carry the key and the name.
\<close>

datatype error =
    AssertionError nat
  | ValueError
  | KeyError string
  | NameError string
  | NotImplementedError


subsection \<open>The builtin \<open>int(str)\<close>\<close>

text \<open>
  \<open>int(s)\<close> on an ASCII string. The blanks stripped at both ends are the characters
  9 to 13 (tab, line feed, vertical tab, form feed, carriage return) and the space; one
  sign is allowed, then decimal digits with single underscores between digits. Anything
  else raises \<open>ValueError\<close>, which is \<open>None\<close> here, and so does a literal of more
  digits than the interpreter converts, 4300 unless it is configured otherwise.
\<close>

definition is_space :: "char \<Rightarrow> bool" where
  "is_space c = (let n = (of_char c :: nat) in (9 \<le> n \<and> n \<le> 13) \<or> n = 32)"

definition is_digit :: "char \<Rightarrow> bool" where
  "is_digit c = (let n = (of_char c :: nat) in 48 \<le> n \<and> n \<le> 57)"

definition digit_val :: "char \<Rightarrow> nat" where
  "digit_val c = of_char c - 48"

definition strip :: "string \<Rightarrow> string" where
  "strip s = rev (dropWhile is_space (rev (dropWhile is_space s)))"

fun digits :: "bool \<Rightarrow> nat \<Rightarrow> string \<Rightarrow> nat option" where
  "digits seen acc [] = (if seen then Some acc else None)"
| "digits seen acc (c # cs) =
     (if is_digit c then digits True (10 * acc + digit_val c) cs
      else if c = CHR ''_'' \<and> seen then digits False acc cs
      else None)"

definition int_max_str_digits :: nat where
  "int_max_str_digits = 4300"

definition py_int :: "string \<Rightarrow> int option" where
  "py_int s =
     (if int_max_str_digits < length (filter is_digit (strip s)) then None
      else case strip s of
        [] \<Rightarrow> None
      | c # cs \<Rightarrow>
          if c = CHR ''-'' then map_option (\<lambda>n. - int n) (digits False 0 cs)
          else if c = CHR ''+'' then map_option int (digits False 0 cs)
          else map_option int (digits False 0 (c # cs)))"

section \<open>run\_uniform\_refinement.py\<close>

subsection \<open>Command line (lines 9 to 19)\<close>

text \<open>
  \<open>argparse\<close> hands over the two positionals as strings and \<open>-num_refinements\<close> as a
  string or \<open>None\<close>.
\<close>

record uniform_args =
  u_model :: string
  u_test_case :: string
  u_num_refinements :: "string option"

text \<open>Lines 14 to 17: the model and the test case.\<close>

definition check_model_test_case :: "uniform_args \<Rightarrow> error + (string \<times> int)" where
  "check_model_test_case a =
     (if u_model a \<notin> set [''stokes'', ''turbine''] then Inl (AssertionError 15)
      else case py_int (u_test_case a) of
        None \<Rightarrow> Inl ValueError
      | Some tc \<Rightarrow>
          if tc \<notin> set [0..11] then Inl (AssertionError 17)
          else Inr (u_model a, tc))"

text \<open>
  Lines 18 and 19: \<open>int(parsed_args.num_refinements or 5)\<close>. \<open>None\<close> and the empty string
  are falsy, so both give 5.
\<close>

definition parse_num_refinements :: "string option \<Rightarrow> error + int" where
  "parse_num_refinements r =
     (case (case r of None \<Rightarrow> Some 5 | Some s \<Rightarrow> if s = [] then Some 5 else py_int s) of
        None \<Rightarrow> Inl ValueError
      | Some n \<Rightarrow> if n \<ge> 0 then Inr n else Inl (AssertionError 19))"

definition uniform_parse :: "uniform_args \<Rightarrow> error + (string \<times> int \<times> int)" where
  "uniform_parse a =
     (case check_model_test_case a of
        Inl e \<Rightarrow> Inl e
      | Inr (m, tc) \<Rightarrow>
          (case parse_num_refinements (u_num_refinements a) of
             Inl e \<Rightarrow> Inl e
           | Inr n \<Rightarrow> Inr (m, tc, n)))"

subsection \<open>The sweep (lines 22 to 44)\<close>

text \<open>
  The finite-element library is a parameter of the script: the mesh hierarchy built for
  a model, a test case and a number of refinements, the element count of a mesh, the
  forward solve, the degree-of-freedom counts of a solution's function space and the
  assembled quantity of interest. \<open>qoi_global\<close> is what the name \<open>qoi\<close> is bound to in
  the module's namespace after \<open>from nn_adapt import *\<close>; the script itself never
  assigns it.
\<close>

record ('m, 's, 'q) uniform_env =
  mesh_hierarchy :: "string \<Rightarrow> int \<Rightarrow> int \<Rightarrow> 'm list"
  u_num_cells :: "'m \<Rightarrow> nat"
  get_solutions :: "'m \<Rightarrow> 's"
  u_dof_count :: "'s \<Rightarrow> nat list"
  assemble_qoi :: "'m \<Rightarrow> 's \<Rightarrow> 'q"
  qoi_global :: "'q option"

datatype 'q uniform_line =
    UTestCase int
  | UMesh nat
  | UElementCount nat
  | UQuantityOfInterest 'q

text \<open>
  The three files written by \<open>np.save\<close>; the model and the test case in their names are
  fixed for a run. A file holds the array of its last save.
\<close>

record 'q uniform_disk =
  qois_file :: "'q list option"
  dofs_file :: "nat list option"
  elements_file :: "nat list option"

record 'q uniform_state =
  qois :: "'q list"
  dofs :: "nat list"
  elements :: "nat list"
  u_disk :: "'q uniform_disk"
  u_stdout :: "'q uniform_line list"

definition uniform_init :: "'q uniform_state" where
  "uniform_init =
     \<lparr>qois = [], dofs = [], elements = [],
      u_disk = \<lparr>qois_file = None, dofs_file = None, elements_file = None\<rparr>,
      u_stdout = []\<rparr>"

text \<open>One pass of the loop of line 32, for level \<open>i\<close> and its mesh.\<close>

definition sweep_level ::
  "('m, 's, 'q) uniform_env \<Rightarrow> nat \<Rightarrow> 'm \<Rightarrow> 'q uniform_state \<Rightarrow> error option \<times> 'q uniform_state"
where
  "sweep_level E i mesh s =
     (let s1 = s\<lparr>u_stdout := u_stdout s @ [UMesh i, UElementCount (u_num_cells E mesh)]\<rparr>;
          fwd_sol = get_solutions E mesh;
          J = assemble_qoi E mesh fwd_sol;
          s2 = s1\<lparr>u_stdout := u_stdout s1 @ [UQuantityOfInterest J]\<rparr>
      in case qoi_global E of
           None \<Rightarrow> (Some (NameError ''qoi''), s2)
         | Some qoi \<Rightarrow>
             (let s3 = s2\<lparr>qois := qois s2 @ [qoi],
                         dofs := dofs s2 @ [sum_list (u_dof_count E fwd_sol)],
                         elements := elements s2 @ [u_num_cells E mesh]\<rparr>
              in (None, s3\<lparr>u_disk := \<lparr>qois_file = Some (qois s3),
                                        dofs_file = Some (dofs s3),
                                        elements_file = Some (elements s3)\<rparr>\<rparr>)))"

fun sweep ::
  "('m, 's, 'q) uniform_env \<Rightarrow> (nat \<times> 'm) list \<Rightarrow> 'q uniform_state \<Rightarrow> error option \<times> 'q uniform_state"
where
  "sweep E [] s = (None, s)"
| "sweep E ((i, mesh) # rest) s =
     (case sweep_level E i mesh s of
        (Some e, s') \<Rightarrow> (Some e, s')
      | (None, s') \<Rightarrow> sweep E rest s')"

definition run_uniform_refinement ::
  "('m, 's, 'q) uniform_env \<Rightarrow> uniform_args \<Rightarrow> error option \<times> 'q uniform_state"
where
  "run_uniform_refinement E a =
     (case uniform_parse a of
        Inl e \<Rightarrow> (Some e, uniform_init)
      | Inr (m, tc, n) \<Rightarrow>
          (let mh = mesh_hierarchy E m tc n
           in sweep E (enumerate 0 mh) (uniform_init\<lparr>u_stdout := [UTestCase tc]\<rparr>)))"

section \<open>run\_adapt.py\<close>

subsection \<open>The test case (lines 31 to 35)\<close>

text \<open>
  \<open>try: test_case = int(...); assert test_case > 0; except ValueError: test_case = ...\<close>.
  Only a \<open>ValueError\<close> of the conversion reaches the handler; the \<open>AssertionError\<close> of
  line 33 leaves the script.
\<close>

datatype test_case = TcInt int | TcStr string

definition parse_test_case :: "string \<Rightarrow> error + test_case" where
  "parse_test_case s =
     (case py_int s of
        None \<Rightarrow> Inr (TcStr s)
      | Some n \<Rightarrow> if n > 0 then Inr (TcInt n) else Inl (AssertionError 33))"

subsection \<open>The convergence tracker and the complexity ramp\<close>

text \<open>A float by its class: \<open>np.isnan\<close> looks at nothing else.\<close>

datatype fl = Finite real | PosInf | NegInf | NaN

definition isnan :: "fl \<Rightarrow> bool" where
  "isnan x = (x = NaN)"

definition isfinite :: "fl \<Rightarrow> bool" where
  "isfinite x = (case x of Finite r \<Rightarrow> True | PosInf \<Rightarrow> False | NegInf \<Rightarrow> False | NaN \<Rightarrow> False)"

datatype reason = ElementCountConverged | QoIConverged | MaxIterationsReached

text \<open>
  Modelled from the spec: the class \<open>nn_adapt.utility.ConvergenceTracker\<close> is not among
  the source files; the script reads and writes its attributes \<open>fp_iteration\<close>,
  \<open>maxiter\<close>, \<open>elements_old\<close> and \<open>converged_reason\<close>. The spec gives it the iteration
  index, the previous element count (absent while none is recorded), the
  max-iteration bound and the tolerance on the element count.
\<close>

record tracker =
  fp_iteration :: int
  maxiter :: int
  elements_old :: "nat option"
  element_rtol :: real
  converged_reason :: "reason option"

text \<open>
  Modelled from the spec: "the relative change between count and the previous recorded
  count falls below a configured tolerance". It is written without the division, so a
  previous count of 0, for which the relative change is undefined, never converges.
\<close>

definition relative_change_below :: "real \<Rightarrow> nat \<Rightarrow> nat \<Rightarrow> bool" where
  "relative_change_below tol c prev = (\<bar>real c - real prev\<bar> < tol * real prev)"

text \<open>
  Modelled from the spec: \<open>ConvergenceTracker.check_elements\<close>, which is not among the
  source files. "Returns true (signals convergence) when the relative change between
  count and the previous recorded count falls below a configured tolerance; otherwise
  records count as the new previous value and returns false"; where no previous count
  is recorded "it only records the baseline".
\<close>

definition check_elements :: "nat \<Rightarrow> tracker \<Rightarrow> bool \<times> tracker" where
  "check_elements c t =
     (case elements_old t of
        None \<Rightarrow> (False, t\<lparr>elements_old := Some c\<rparr>)
      | Some prev \<Rightarrow>
          if relative_change_below (element_rtol t) c prev
          then (True, t\<lparr>converged_reason := Some ElementCountConverged\<rparr>)
          else (False, t\<lparr>elements_old := Some c\<rparr>))"

text \<open>
  Modelled from the spec: \<open>ConvergenceTracker.check_maxiter\<close>, which is not among the
  source files. It "raises/signals exactly when the iteration index equals the configured
  maximum", as "a normal (non-error) terminal condition, distinguished in the final
  report": the signal is the returned flag together with the reason it records. Line 144
  of the script drops the flag and line 145 prints the reason.
\<close>

definition check_maxiter :: "tracker \<Rightarrow> bool \<times> tracker" where
  "check_maxiter t =
     (if fp_iteration t = maxiter t
      then (True, t\<lparr>converged_reason := Some MaxIterationsReached\<rparr>)
      else (False, t))"

text \<open>
  Modelled from the spec: \<open>ramp_complexity\<close>, which is not among the source files. "A
  monotonic ramp from a base value to a target value as a function of iteration index
  (e.g., linear or geometric interpolation, clamped at the target once reached)": the
  linear interpolation, reaching the target at iteration \<open>n\<close>, the number of ramp
  iterations the function is configured with.
\<close>

definition ramp_complexity :: "nat \<Rightarrow> real \<Rightarrow> real \<Rightarrow> int \<Rightarrow> real" where
  "ramp_complexity n base target i =
     (if int n \<le> i then target
      else if i \<le> 0 then base
      else base + (target - base) * real_of_int i / real n)"

subsection \<open>Functions, the result bundle and the services\<close>

text \<open>
  A finite-element function: its function space and the data of its components
  (\<open>split()\<close> lists them).
\<close>

datatype ('sp, 'd) func = Func (fspace: 'sp) (fcomps: "'d list")

text \<open>
  The dictionary returned by \<open>go_metric\<close>: a key that is absent is \<open>None\<close>.
\<close>

record ('sp, 'd) result_bundle =
  out_qoi :: "fl option"
  out_forward :: "('sp, 'd) func option"
  out_estimator :: "fl option"
  out_adjoint :: "('sp, 'd) func option"
  out_dwr :: "('sp, 'd) func option"
  out_metric :: "('sp, 'd) func option"

definition getitem :: "string \<Rightarrow> 'a option \<Rightarrow> error + 'a" where
  "getitem k v = (case v of None \<Rightarrow> Inl (KeyError k) | Some x \<Rightarrow> Inr x)"

text \<open>
  The keyword arguments of lines 52 to 57, with the two entries the loop adds:
  \<open>target_complexity\<close> (line 76) and \<open>init\<close> (line 112).
\<close>

record ('sp, 'd) kwargs =
  enrichment_method :: string
  average :: bool
  anisotropic :: bool
  retall :: bool
  kw_target_complexity :: "real option"
  kw_init :: "('sp \<Rightarrow> error + ('sp, 'd) func) option"

text \<open>
  What the script calls and does not define: the setup module of the model, the
  tracker's constructor, the solve and estimate service (which is handed the tracker and
  may update it), feature extraction, the metric and mesh-adaptation calls, and the
  projection of functions. \<open>project ic f\<close> is \<open>ic.project(f)\<close>: the new data of \<open>ic\<close>, or
  the exception raised. \<open>project_comp V k c_init c\<close> is \<open>c_init.project(c)\<close> for the
  \<open>k\<close>-th component of a function on \<open>V\<close>.
\<close>

record ('m, 'sp, 'd) services =
  load_mesh :: "string \<Rightarrow> test_case \<Rightarrow> 'm"
  convergence_tracker :: "'m \<Rightarrow> tracker"
  qoi_unit :: string
  h_min :: real
  h_max :: real
  ramp_iterations :: nat
  go_metric :: "'m \<Rightarrow> tracker \<Rightarrow> ('sp, 'd) kwargs \<Rightarrow> ('sp, 'd) result_bundle \<times> tracker"
  dof_count :: "('sp, 'd) func \<Rightarrow> nat list"
  extract_features :: "('sp, 'd) func \<Rightarrow> ('sp, 'd) func \<Rightarrow> (string \<times> fl list) list"
  dat_data_flatten :: "('sp, 'd) func \<Rightarrow> fl list"
  clement_interpolant :: "('sp, 'd) func \<Rightarrow> ('sp, 'd) func"
  hessian_metric :: "('sp, 'd) func \<Rightarrow> ('sp, 'd) func"
  space_normalise :: "('sp, 'd) func \<Rightarrow> real \<Rightarrow> ('sp, 'd) func"
  enforce_element_constraints :: "('sp, 'd) func \<Rightarrow> real \<Rightarrow> real \<Rightarrow> real \<Rightarrow> ('sp, 'd) func"
  riemannian_metric :: "'m \<Rightarrow> ('sp, 'd) func \<Rightarrow> ('sp, 'd) func"
  adapt :: "'m \<Rightarrow> ('sp, 'd) func \<Rightarrow> 'm"
  num_cells :: "'m \<Rightarrow> nat"
  zero_data :: "'sp \<Rightarrow> 'd list"
  project :: "('sp, 'd) func \<Rightarrow> ('sp, 'd) func \<Rightarrow> error + 'd list"
  project_comp :: "'sp \<Rightarrow> nat \<Rightarrow> 'd \<Rightarrow> 'd \<Rightarrow> error + 'd"

text \<open>The parsed command line, as far as the script reads it.\<close>

record args =
  model :: string
  test_case_arg :: string
  approach :: string
  base_complexity :: real
  target_complexity :: real
  optimise :: bool
  no_outputs_flag :: bool
  transfer :: bool

definition no_outputs :: "args \<Rightarrow> bool" where
  "no_outputs a = (no_outputs_flag a \<or> optimise a)"

subsection \<open>What a run leaves behind\<close>

text \<open>
  Standard output, line by line; the files; and the calls handed to the services, in the
  order of the run. \<open>GoMetric\<close> records a call of \<open>go_metric\<close> with the tracker's
  \<open>fp_iteration\<close>, the target complexity and whether \<open>init\<close> is among the keyword
  arguments. \<open>NpSave\<close> is a file of the data directory: \<open>FeatureFile\<close> is
  \<open>feature_{key}_{test_case}_GO{approach}_{iteration}\<close> and \<open>TargetFile\<close> is
  \<open>target_{test_case}_GO{approach}_{iteration}\<close>. \<open>LogEvent\<close> is a \<open>PETSc.Log.Event\<close>
  block being entered.
\<close>

datatype line =
    TestCaseLine test_case
  | MeshLine int
  | ElementCountOld "nat option"
  | ElementCount nat
  | QuantityOfInterest fl string
  | DoFCount nat
  | ErrorEstimator fl
  | Terminated int "reason option"

datatype pvd = ForwardPvd | AdjointPvd | EstimatorPvd | MetricPvd | MeshPvd

datatype fname =
    FeatureFile string test_case string int
  | TargetFile test_case string int

datatype event =
    Print line
  | PvdWrite pvd
  | GoMetric int real bool
  | ExtractFeatures
  | NpSave fname "fl list"
  | LogEvent string

record ('m, 'sp, 'd) state =
  mesh :: 'm
  ct :: tracker
  kwargs :: "('sp, 'd) kwargs"
  trace :: "event list"

definition emit :: "event list \<Rightarrow> ('m, 'sp, 'd) state \<Rightarrow> ('m, 'sp, 'd) state" where
  "emit es s = s\<lparr>trace := trace s @ es\<rparr>"

datatype outcome = Continue | Break | Raise error

subsection \<open>\<open>proj\<close> (lines 97 to 108)\<close>

text \<open>The loop of lines 106 and 107 over the zipped components, \<open>k\<close> the position.\<close>

fun project_each ::
  "('m, 'sp, 'd) services \<Rightarrow> 'sp \<Rightarrow> nat \<Rightarrow> ('d \<times> 'd) list \<Rightarrow> error + 'd list"
where
  "project_each E V k [] = Inr []"
| "project_each E V k ((c_init, c) # rest) =
     (case project_comp E V k c_init c of
        Inl e \<Rightarrow> Inl e
      | Inr d \<Rightarrow>
          (case project_each E V (Suc k) rest of
             Inl e \<Rightarrow> Inl e
           | Inr ds \<Rightarrow> Inr (d # ds)))"

text \<open>
  \<open>proj\<close> reads the module's \<open>fwd_sol\<close> when it is called, which is inside the next
  \<open>go_metric\<close>; line 80 rebinds \<open>fwd_sol\<close> only after that call has returned, so the
  function it reads is the one of the pass that defined it, the argument here.
  Components of \<open>ic\<close> beyond the zip keep their data.
\<close>

definition proj ::
  "('m, 'sp, 'd) services \<Rightarrow> ('sp, 'd) func \<Rightarrow> 'sp \<Rightarrow> error + ('sp, 'd) func"
where
  "proj E fwd_sol V =
     (let ic = Func V (zero_data E V)
      in case project E ic fwd_sol of
           Inr ds \<Rightarrow> Inr (Func V ds)
         | Inl e \<Rightarrow>
             if e = NotImplementedError
             then (case project_each E V 0 (zip (fcomps ic) (fcomps fwd_sol)) of
                     Inl e' \<Rightarrow> Inl e'
                   | Inr ds \<Rightarrow> Inr (Func V (ds @ drop (length ds) (fcomps ic))))
             else Inl e)"

subsection \<open>The loop body (lines 72 to 144)\<close>

text \<open>Lines 115 to 121: feature extraction.\<close>

definition harvest ::
  "('m, 'sp, 'd) services \<Rightarrow> args \<Rightarrow> test_case \<Rightarrow> int \<Rightarrow>
   ('sp, 'd) func \<Rightarrow> ('sp, 'd) func \<Rightarrow> ('sp, 'd) func \<Rightarrow>
   ('m, 'sp, 'd) state \<Rightarrow> error option \<times> ('m, 'sp, 'd) state"
where
  "harvest E a tc i fwd_sol adj_sol dwr s =
     (if optimise a then (None, s)
      else
        (let features = extract_features E fwd_sol adj_sol;
             target = dat_data_flatten E dwr;
             s1 = emit [ExtractFeatures] s
         in if list_ex isnan target then (Some (AssertionError 118), s1)
            else (None,
                  emit (map (\<lambda>(k, v). NpSave (FeatureFile k tc (approach a) i) v) features
                        @ [NpSave (TargetFile tc (approach a) i) target]) s1)))"

text \<open>
  Lines 124 to 132: the metric handed to the mesh adaptation. The function space of
  line 125 is not used.
\<close>

definition process_metric ::
  "('m, 'sp, 'd) services \<Rightarrow> 'm \<Rightarrow> real \<Rightarrow> ('sp, 'd) func \<Rightarrow> ('sp, 'd) func"
where
  "process_metric E m target_ramp p0metric =
     (let p1metric = hessian_metric E (clement_interpolant E p0metric);
          p1metric = space_normalise E p1metric target_ramp;
          p1metric = enforce_element_constraints E p1metric (h_min E) (h_max E) 100000
      in riemannian_metric E m p1metric)"

text \<open>Lines 124 to 138: the new mesh replaces the old one.\<close>

definition adapt_mesh ::
  "('m, 'sp, 'd) services \<Rightarrow> args \<Rightarrow> real \<Rightarrow> ('sp, 'd) func \<Rightarrow>
   ('m, 'sp, 'd) state \<Rightarrow> ('m, 'sp, 'd) state"
where
  "adapt_mesh E a target_ramp p0metric s =
     (let s1 = emit [LogEvent ''Metric construction''] s;
          metric = process_metric E (mesh s1) target_ramp p0metric;
          s2 = emit [LogEvent ''Mesh adaptation''] s1;
          s3 = s2\<lparr>mesh := adapt E (mesh s2) metric\<rparr>
      in if \<not> no_outputs a then emit [PvdWrite MeshPvd] s3 else s3)"

text \<open>
  Lines 139 to 144: the element count goes to the tracker; line 144 drops what
  \<open>check_maxiter\<close> returns.
\<close>

definition check_convergence ::
  "('m, 'sp, 'd) services \<Rightarrow> ('m, 'sp, 'd) state \<Rightarrow> outcome \<times> ('m, 'sp, 'd) state"
where
  "check_convergence E s =
     (let elements = num_cells E (mesh s);
          s1 = emit [Print (MeshLine (fp_iteration (ct s) + 1)), Print (ElementCount elements)] s
      in case check_elements elements (ct s1) of
           (True, t) \<Rightarrow> (Break, s1\<lparr>ct := t\<rparr>)
         | (False, t) \<Rightarrow> (Continue, s1\<lparr>ct := snd (check_maxiter t)\<rparr>))"

definition adapt_and_check ::
  "('m, 'sp, 'd) services \<Rightarrow> args \<Rightarrow> real \<Rightarrow> ('sp, 'd) func \<Rightarrow>
   ('m, 'sp, 'd) state \<Rightarrow> outcome \<times> ('m, 'sp, 'd) state"
where
  "adapt_and_check E a target_ramp p0metric s =
     check_convergence E (adapt_mesh E a target_ramp p0metric s)"

text \<open>Lines 91 to 95: the visualisation files of the pass.\<close>

definition write_outputs :: "args \<Rightarrow> ('m, 'sp, 'd) state \<Rightarrow> ('m, 'sp, 'd) state" where
  "write_outputs a s =
     (if \<not> no_outputs a
      then emit [PvdWrite ForwardPvd, PvdWrite AdjointPvd,
                 PvdWrite EstimatorPvd, PvdWrite MetricPvd] s
      else s)"

text \<open>Lines 110 to 112: \<open>proj\<close> becomes the \<open>init\<close> keyword argument.\<close>

definition set_init ::
  "('m, 'sp, 'd) services \<Rightarrow> args \<Rightarrow> ('sp, 'd) func \<Rightarrow>
   ('m, 'sp, 'd) state \<Rightarrow> ('m, 'sp, 'd) state"
where
  "set_init E a fwd_sol s =
     (if transfer a
      then s\<lparr>kwargs := (kwargs s)\<lparr>kw_init := Some (proj E fwd_sol)\<rparr>\<rparr>
      else s)"

text \<open>Lines 90 to 144, once the bundle is known to hold the adjoint and the metric.\<close>

definition refine ::
  "('m, 'sp, 'd) services \<Rightarrow> args \<Rightarrow> test_case \<Rightarrow> int \<Rightarrow> real \<Rightarrow>
   ('sp, 'd) func \<Rightarrow> ('sp, 'd) func \<Rightarrow> ('sp, 'd) func \<Rightarrow> ('sp, 'd) func \<Rightarrow>
   ('m, 'sp, 'd) state \<Rightarrow> outcome \<times> ('m, 'sp, 'd) state"
where
  "refine E a tc i target_ramp fwd_sol adj_sol dwr p0metric s =
     (case harvest E a tc i fwd_sol adj_sol dwr (set_init E a fwd_sol (write_outputs a s)) of
        (Some e, s') \<Rightarrow> (Raise e, s')
      | (None, s') \<Rightarrow> adapt_and_check E a target_ramp p0metric s')"

text \<open>
  Lines 71 to 79: the \<open>for\<close> assigns \<open>i\<close> to the tracker's counter, the ramped
  complexity goes into the keyword arguments and \<open>go_metric\<close> is called with the
  tracker, which it may update.
\<close>

definition solve ::
  "('m, 'sp, 'd) services \<Rightarrow> args \<Rightarrow> int \<Rightarrow> ('m, 'sp, 'd) state \<Rightarrow>
   ('sp, 'd) result_bundle \<times> real \<times> ('m, 'sp, 'd) state"
where
  "solve E a i s =
     (let s0 = s\<lparr>ct := (ct s)\<lparr>fp_iteration := i\<rparr>\<rparr>;
          target_ramp = ramp_complexity (ramp_iterations E) (base_complexity a)
                          (target_complexity a) (fp_iteration (ct s0));
          s1 = s0\<lparr>kwargs := (kwargs s0)\<lparr>kw_target_complexity := Some target_ramp\<rparr>\<rparr>;
          s2 = emit [GoMetric (fp_iteration (ct s1)) target_ramp (kw_init (kwargs s1) \<noteq> None)] s1
      in case go_metric E (mesh s2) (ct s2) (kwargs s2) of
           (out, t) \<Rightarrow> (out, target_ramp, s2\<lparr>ct := t\<rparr>))"

text \<open>Lines 80 to 144: what the loop does with the bundle.\<close>

definition inspect ::
  "('m, 'sp, 'd) services \<Rightarrow> args \<Rightarrow> test_case \<Rightarrow> int \<Rightarrow> real \<Rightarrow>
   ('sp, 'd) result_bundle \<Rightarrow> ('m, 'sp, 'd) state \<Rightarrow> outcome \<times> ('m, 'sp, 'd) state"
where
  "inspect E a tc i target_ramp out s =
     (case getitem ''qoi'' (out_qoi out) of
        Inl e \<Rightarrow> (Raise e, s)
      | Inr qoi \<Rightarrow>
     (case getitem ''forward'' (out_forward out) of
        Inl e \<Rightarrow> (Raise e, s)
      | Inr fwd_sol \<Rightarrow>
     (let s1 = emit [Print (QuantityOfInterest qoi (qoi_unit E))] s;
          dof = sum_list (dof_count E fwd_sol);
          s2 = emit [Print (DoFCount dof)] s1
      in if out_adjoint out = None then (Break, s2)
         else
     (case getitem ''estimator'' (out_estimator out) of
        Inl e \<Rightarrow> (Raise e, s2)
      | Inr estimator \<Rightarrow>
     (let s3 = emit [Print (ErrorEstimator estimator)] s2
      in if out_metric out = None then (Break, s3)
         else
     (case getitem ''adjoint'' (out_adjoint out) of
        Inl e \<Rightarrow> (Raise e, s3)
      | Inr adj_sol \<Rightarrow>
     (case getitem ''dwr'' (out_dwr out) of
        Inl e \<Rightarrow> (Raise e, s3)
      | Inr dwr \<Rightarrow>
     (case getitem ''metric'' (out_metric out) of
        Inl e \<Rightarrow> (Raise e, s3)
      | Inr p0metric \<Rightarrow>
          refine E a tc i target_ramp fwd_sol adj_sol dwr p0metric s3))))))))"

text \<open>One pass of the loop of line 71, with \<open>i\<close> the value the \<open>for\<close> assigns.\<close>

definition body ::
  "('m, 'sp, 'd) services \<Rightarrow> args \<Rightarrow> test_case \<Rightarrow> int \<Rightarrow>
   ('m, 'sp, 'd) state \<Rightarrow> outcome \<times> ('m, 'sp, 'd) state"
where
  "body E a tc i s =
     (case solve E a i s of
        (out, target_ramp, s') \<Rightarrow> inspect E a tc i target_ramp out s')"

subsection \<open>The loop and the script\<close>

text \<open>
  \<open>for ct.fp_iteration in range(ct.maxiter + 1)\<close>: the range is built once, before the
  first pass, and the passes run over its values.
\<close>

fun adapt_loop ::
  "('m, 'sp, 'd) services \<Rightarrow> args \<Rightarrow> test_case \<Rightarrow> int list \<Rightarrow>
   ('m, 'sp, 'd) state \<Rightarrow> error option \<times> ('m, 'sp, 'd) state"
where
  "adapt_loop E a tc [] s = (None, s)"
| "adapt_loop E a tc (i # rest) s =
     (case body E a tc i s of
        (Continue, s') \<Rightarrow> adapt_loop E a tc rest s'
      | (Break, s') \<Rightarrow> (None, s')
      | (Raise e, s') \<Rightarrow> (Some e, s'))"

text \<open>Lines 44 to 70: the state the loop starts from.\<close>

definition initial_state ::
  "('m, 'sp, 'd) services \<Rightarrow> args \<Rightarrow> test_case \<Rightarrow> ('m, 'sp, 'd) state"
where
  "initial_state E a tc =
     (let mesh0 = load_mesh E (model a) tc;
          t = convergence_tracker E mesh0
      in \<lparr>mesh = mesh0, ct = t,
          kwargs = \<lparr>enrichment_method = ''h'', average = False,
                    anisotropic = (approach a = ''anisotropic''), retall = True,
                    kw_target_complexity = None, kw_init = None\<rparr>,
          trace = (if \<not> no_outputs a then [PvdWrite MeshPvd] else [])
                  @ [Print (TestCaseLine tc), Print (MeshLine 0),
                     Print (ElementCountOld (elements_old t))]\<rparr>)"

text \<open>
  The script: an exception ends it where it is raised; otherwise line 145 reports the
  pass count and the reason. The time report of line 146 is left out.
\<close>

definition run_adapt ::
  "('m, 'sp, 'd) services \<Rightarrow> args \<Rightarrow> error + (error option \<times> ('m, 'sp, 'd) state)"
where
  "run_adapt E a =
     (case parse_test_case (test_case_arg a) of
        Inl e \<Rightarrow> Inl e
      | Inr tc \<Rightarrow>
          (let s = initial_state E a tc
           in case adapt_loop E a tc [0..maxiter (ct s)] s of
                (Some e, s') \<Rightarrow> Inr (Some e, s')
              | (None, s') \<Rightarrow>
                  Inr (None, emit [Print (Terminated (fp_iteration (ct s') + 1)
                                                     (converged_reason (ct s')))] s')))"

subsection \<open>Reading a trace\<close>

text \<open>
  The values of \<open>fp_iteration\<close> the tracker had at the calls of \<open>go_metric\<close>, in order
  (one call for each pass of the loop), and the number of mesh adaptations.
\<close>

fun solves :: "event list \<Rightarrow> int list" where
  "solves [] = []"
| "solves (GoMetric i r b # es) = i # solves es"
| "solves (e # es) = solves es"

fun adaptations :: "event list \<Rightarrow> nat" where
  "adaptations [] = 0"
| "adaptations (e # es) = (if e = LogEvent ''Mesh adaptation'' then 1 else 0) + adaptations es"

text \<open>
  \<open>counter_matches n es\<close>: walking \<open>es\<close> after \<open>n\<close> adaptations, every call of
  \<open>go_metric\<close> is made with the counter equal to the number of adaptations so far.
\<close>

fun counter_matches :: "nat \<Rightarrow> event list \<Rightarrow> bool" where
  "counter_matches n [] = True"
| "counter_matches n (GoMetric i r b # es) = (i = int n \<and> counter_matches n es)"
| "counter_matches n (e # es) =
     counter_matches (if e = LogEvent ''Mesh adaptation'' then Suc n else n) es"

section \<open>Example inputs\<close>

text \<open>
  A mesh stands for its element count. The hierarchy of the example has one mesh more
  than the number of refinements, each four times as fine as the one before; the name
  \<open>qoi\<close> is not bound.
\<close>

definition example_uniform_env :: "(nat, nat, nat) uniform_env" where
  "example_uniform_env =
     \<lparr>mesh_hierarchy = (\<lambda>m tc n. map (\<lambda>k. 10 * 4 ^ k) [0..<nat n + 1]),
      u_num_cells = (\<lambda>m. m),
      get_solutions = (\<lambda>m. 3 * m),
      u_dof_count = (\<lambda>s. [s, s]),
      assemble_qoi = (\<lambda>m s. m + s),
      qoi_global = None\<rparr>"

text \<open>
  A tracker as line 58 builds it from a mesh: the counter at 0, the element count of
  the mesh as the previous count (line 69 prints it as the element count of mesh 0) and
  no reason yet.
\<close>

definition example_tracker :: "int \<Rightarrow> real \<Rightarrow> nat \<Rightarrow> tracker" where
  "example_tracker mx tol n =
     \<lparr>fp_iteration = 0, maxiter = mx, elements_old = Some n, element_rtol = tol,
      converged_reason = None\<rparr>"

text \<open>
  Services for the adaptation script: \<open>go_metric\<close> returns the same bundle at every call
  and leaves the tracker alone, the indicator's data is the given array, every adaptation
  doubles the element count, and direct projection is not implemented.
\<close>

definition example_bundle :: "(nat, nat) result_bundle" where
  "example_bundle =
     \<lparr>out_qoi = Some (Finite 1), out_forward = Some (Func 0 [7, 2]),
      out_estimator = Some (Finite (1/2)), out_adjoint = Some (Func 0 [3, 4]),
      out_dwr = Some (Func 3 [5]), out_metric = Some (Func 2 [6])\<rparr>"

definition example_services ::
  "int \<Rightarrow> (nat, nat) result_bundle \<Rightarrow> fl list \<Rightarrow> (nat, nat, nat) services"
where
  "example_services mx out target =
     \<lparr>load_mesh = (\<lambda>m tc. 100),
      convergence_tracker = (\<lambda>m. example_tracker mx (1/100) m),
      qoi_unit = ''W'',
      h_min = 1/100,
      h_max = 10,
      ramp_iterations = 3,
      go_metric = (\<lambda>m t k. (out, t)),
      dof_count = (\<lambda>f. map (\<lambda>d. 10 * d) (fcomps f)),
      extract_features = (\<lambda>f g. [(''x'', [Finite 1]), (''y'', [Finite 2])]),
      dat_data_flatten = (\<lambda>f. target),
      clement_interpolant = (\<lambda>f. f),
      hessian_metric = (\<lambda>f. f),
      space_normalise = (\<lambda>f r. f),
      enforce_element_constraints = (\<lambda>f a b c. f),
      riemannian_metric = (\<lambda>m f. f),
      adapt = (\<lambda>m g. 2 * m),
      num_cells = (\<lambda>m. m),
      zero_data = (\<lambda>V. replicate 2 0),
      project = (\<lambda>ic f. Inl NotImplementedError),
      project_comp = (\<lambda>V k c_init c. Inr (c + k))\<rparr>"

definition example_args :: args where
  "example_args =
     \<lparr>model = ''stokes'', test_case_arg = ''1'', approach = ''anisotropic'',
      base_complexity = 200, target_complexity = 1000, optimise = False,
      no_outputs_flag = True, transfer = True\<rparr>"

section \<open>Properties of run\_uniform\_refinement.py\<close>

lemma py_int_simps:
  "py_int ''0'' = Some 0" "py_int ''-3'' = Some (-3)" "py_int ''abc'' = None"
  "py_int ''12'' = Some 12" "py_int ''2'' = Some 2" "py_int ''1'' = Some 1"
  "py_int '' 7'' = Some 7" "py_int [CHR 0x1C, CHR ''0''] = None"
  by (simp_all add: py_int_def strip_def is_space_def is_digit_def digit_val_def
      int_max_str_digits_def)


lemma sweep_unbound:
  "qoi_global E = None \<Longrightarrow> l \<noteq> [] \<Longrightarrow>
     fst (sweep E l s) = Some (NameError ''qoi'')
     \<and> u_disk (snd (sweep E l s)) = u_disk s
     \<and> qois (snd (sweep E l s)) = qois s"
  by (cases l) (auto simp: sweep_level_def Let_def)

text \<open>
  Where the import does bind the name \<open>qoi\<close>, every level records that same object:
  the quantity computed at line 37 is never what is recorded.
\<close>

lemma sweep_bound:
  "qoi_global E = Some g \<Longrightarrow>
     fst (sweep E l s) = None
     \<and> qois (snd (sweep E l s)) = qois s @ replicate (length l) g"
proof (induction E l s rule: sweep.induct)
  case (1 E s)
  then show ?case by simp
next
  case (2 E i mesh rest s)
  from "2.prems" have lv: "sweep_level E i mesh s = (None, snd (sweep_level E i mesh s))"
    and q: "qois (snd (sweep_level E i mesh s)) = qois s @ [g]"
    by (simp_all add: sweep_level_def Let_def)
  have step: "sweep E ((i, mesh) # rest) s = sweep E rest (snd (sweep_level E i mesh s))"
    by (subst sweep.simps, subst lv) simp
  from "2.IH" [OF lv [symmetric] refl "2.prems"] q show ?case
    unfolding step by simp
qed

text \<open>
  Claim C1, as the code has it. The sweep is to record the quantity of interest of every
  level and to save the three arrays after every level. Line 37 binds the quantity to
  \<open>J\<close> and line 39 appends \<open>qoi\<close>: where the name \<open>qoi\<close> is not bound, the first level
  of any hierarchy ends the script with a \<open>NameError\<close>, before the first \<open>np.save\<close>, and
  none of the three files exists.
\<close>

theorem uniform_sweep_name_error:
  "qoi_global E = None \<and> uniform_parse a = Inr (m, tc, n) \<and> mesh_hierarchy E m tc n \<noteq> [] \<longrightarrow>
     fst (run_uniform_refinement E a) = Some (NameError ''qoi'')
     \<and> u_disk (snd (run_uniform_refinement E a))
         = \<lparr>qois_file = None, dofs_file = None, elements_file = None\<rparr>"
proof
  assume h: "qoi_global E = None \<and> uniform_parse a = Inr (m, tc, n) \<and> mesh_hierarchy E m tc n \<noteq> []"
  then have ne: "enumerate 0 (mesh_hierarchy E m tc n) \<noteq> []"
    by (cases "mesh_hierarchy E m tc n") auto
  from h sweep_unbound [OF _ ne, of E "uniform_init\<lparr>u_stdout := [UTestCase tc]\<rparr>"]
  show "fst (run_uniform_refinement E a) = Some (NameError ''qoi'')
     \<and> u_disk (snd (run_uniform_refinement E a))
         = \<lparr>qois_file = None, dofs_file = None, elements_file = None\<rparr>"
    by (simp add: run_uniform_refinement_def Let_def uniform_init_def)
qed

theorem uniform_sweep_name_error_witness:
  "fst (run_uniform_refinement example_uniform_env
      \<lparr>u_model = ''stokes'', u_test_case = ''0'', u_num_refinements = Some ''2''\<rparr>)
     = Some (NameError ''qoi'')
   \<and> u_disk (snd (run_uniform_refinement example_uniform_env
      \<lparr>u_model = ''stokes'', u_test_case = ''0'', u_num_refinements = Some ''2''\<rparr>))
     = \<lparr>qois_file = None, dofs_file = None, elements_file = None\<rparr>"
  using uniform_sweep_name_error [where E = example_uniform_env
      and a = "\<lparr>u_model = ''stokes'', u_test_case = ''0'', u_num_refinements = Some ''2''\<rparr>"
      and m = "''stokes''" and tc = 0 and n = 2]
  by (simp add: example_uniform_env_def uniform_parse_def check_model_test_case_def
      parse_num_refinements_def py_int_simps)




section \<open>Properties of run\_adapt.py\<close>

subsection \<open>The stages of a pass\<close>

lemma emit_simps:
  "mesh (emit es s) = mesh s" "ct (emit es s) = ct s" "kwargs (emit es s) = kwargs s"
  "trace (emit es s) = trace s @ es"
  by (simp_all add: emit_def)

lemma emit_emit: "emit es' (emit es s) = emit (es @ es') s"
  by (simp add: emit_def)

lemma case_bool_pair:
  "(case p of (True, t) \<Rightarrow> f t | (False, t) \<Rightarrow> g t) = (if fst p then f (snd p) else g (snd p))"
  by (cases p) (simp split: bool.splits)

lemma adapt_mesh_simps:
  "ct (adapt_mesh E a r p s) = ct s"
  "kwargs (adapt_mesh E a r p s) = kwargs s"
  "mesh (adapt_mesh E a r p s) = adapt E (mesh s) (process_metric E (mesh s) r p)"
  "trace (adapt_mesh E a r p s) = trace s @ [LogEvent ''Metric construction'', LogEvent ''Mesh adaptation'']
      @ (if \<not> no_outputs a then [PvdWrite MeshPvd] else [])"
  by (simp_all add: adapt_mesh_def Let_def emit_simps)

lemma check_convergence_simps:
  "fst (check_convergence E s) = (if fst (check_elements (num_cells E (mesh s)) (ct s)) then Break else Continue)"
  "mesh (snd (check_convergence E s)) = mesh s"
  "kwargs (snd (check_convergence E s)) = kwargs s"
  "trace (snd (check_convergence E s)) = trace s @ [Print (MeshLine (fp_iteration (ct s) + 1)), Print (ElementCount (num_cells E (mesh s)))]"
  "ct (snd (check_convergence E s)) =
     (if fst (check_elements (num_cells E (mesh s)) (ct s)) then snd (check_elements (num_cells E (mesh s)) (ct s))
      else snd (check_maxiter (snd (check_elements (num_cells E (mesh s)) (ct s)))))"
  by (simp_all add: check_convergence_def Let_def emit_simps case_bool_pair)

lemma harvest_cases:
  "optimise a \<Longrightarrow> harvest E a tc i f g d s = (None, s)"
  "\<not> optimise a \<Longrightarrow> list_ex isnan (dat_data_flatten E d) \<Longrightarrow>
     harvest E a tc i f g d s = (Some (AssertionError 118), emit [ExtractFeatures] s)"
  "\<not> optimise a \<Longrightarrow> \<not> list_ex isnan (dat_data_flatten E d) \<Longrightarrow>
     harvest E a tc i f g d s =
       (None, emit (ExtractFeatures
                    # map (\<lambda>(k, v). NpSave (FeatureFile k tc (approach a) i) v) (extract_features E f g)
                    @ [NpSave (TargetFile tc (approach a) i) (dat_data_flatten E d)]) s)"
  by (simp_all add: harvest_def Let_def emit_emit)


lemma harvest_error: "fst (harvest E a tc i f g d s) = Some e \<Longrightarrow> e = AssertionError 118"
  by (simp add: harvest_def Let_def split: if_splits)

lemma adapt_and_check_no_raise: "fst (adapt_and_check E a r p s) \<noteq> Raise e"
  by (simp add: adapt_and_check_def check_convergence_simps)

lemma adapt_and_check_reason:
  "(fst (adapt_and_check E a r p s) = Break \<longrightarrow>
      converged_reason (ct (snd (adapt_and_check E a r p s))) = Some ElementCountConverged)
   \<and> (fst (adapt_and_check E a r p s) = Continue \<and> fp_iteration (ct s) = maxiter (ct s) \<longrightarrow>
      converged_reason (ct (snd (adapt_and_check E a r p s))) = Some MaxIterationsReached)
   \<and> (fst (adapt_and_check E a r p s) = Continue \<and> fp_iteration (ct s) \<noteq> maxiter (ct s) \<longrightarrow>
      converged_reason (ct (snd (adapt_and_check E a r p s))) = converged_reason (ct s))"
  by (auto simp: adapt_and_check_def check_convergence_simps adapt_mesh_simps
      check_elements_def check_maxiter_def split: option.splits if_splits)


lemma write_outputs_simps:
  "mesh (write_outputs a s) = mesh s" "ct (write_outputs a s) = ct s"
  "kwargs (write_outputs a s) = kwargs s"
  "trace (write_outputs a s) = trace s @ (if \<not> no_outputs a then [PvdWrite ForwardPvd, PvdWrite AdjointPvd,
                 PvdWrite EstimatorPvd, PvdWrite MetricPvd] else [])"
  by (simp_all add: write_outputs_def emit_simps)

lemma set_init_simps:
  "mesh (set_init E a f s) = mesh s" "ct (set_init E a f s) = ct s"
  "trace (set_init E a f s) = trace s"
  "kwargs (set_init E a f s) = (if transfer a then (kwargs s)\<lparr>kw_init := Some (proj E f)\<rparr> else kwargs s)"
  by (simp_all add: set_init_def)

lemma refine_eq:
  "refine E a tc i r f g d p s =
     (case fst (harvest E a tc i f g d (set_init E a f (write_outputs a s))) of
        Some e \<Rightarrow> (Raise e, snd (harvest E a tc i f g d (set_init E a f (write_outputs a s))))
      | None \<Rightarrow> adapt_and_check E a r p (snd (harvest E a tc i f g d (set_init E a f (write_outputs a s)))))"
  by (simp add: refine_def split: prod.splits option.splits)


lemma refine_nan:
  "\<not> optimise a \<Longrightarrow> list_ex isnan (dat_data_flatten E d) \<Longrightarrow>
     refine E a tc i r f g d p s
       = (Raise (AssertionError 118), emit [ExtractFeatures] (set_init E a f (write_outputs a s)))"
  by (simp add: refine_eq harvest_cases)

lemma refine_no_nan:
  "\<not> list_ex isnan (dat_data_flatten E d) \<Longrightarrow> fst (refine E a tc i r f g d p s) \<noteq> Raise e"
  by (cases "optimise a") (simp_all add: refine_eq harvest_cases adapt_and_check_no_raise)

subsection \<open>The test case\<close>



subsection \<open>The convergence tracker\<close>

text \<open>
  Claim C6. \<open>check_maxiter\<close> signals exactly when the iteration index equals the
  configured maximum and leaves the tracker alone before that; the reason it records
  differs from the two convergence reasons. At its call site, lines 142 to 144, no
  exception is raised: a pass that adapts the mesh ends with \<open>Break\<close> on element-count
  convergence, or goes on with the reason set to the max-iteration one exactly when the
  index has reached the maximum.
\<close>

theorem check_maxiter_spec:
  "(fst (check_maxiter t) \<longleftrightarrow> fp_iteration t = maxiter t)
   \<and> (fp_iteration t < maxiter t \<longrightarrow> check_maxiter t = (False, t))
   \<and> (fp_iteration t = maxiter t \<longrightarrow>
        check_maxiter t = (True, t\<lparr>converged_reason := Some MaxIterationsReached\<rparr>))
   \<and> MaxIterationsReached \<noteq> ElementCountConverged
   \<and> MaxIterationsReached \<noteq> QoIConverged
   \<and> fst (adapt_and_check E a r p s) \<noteq> Raise e
   \<and> (fst (adapt_and_check E a r p s) = Break \<longrightarrow>
        converged_reason (ct (snd (adapt_and_check E a r p s))) = Some ElementCountConverged)
   \<and> (fst (adapt_and_check E a r p s) = Continue \<and> fp_iteration (ct s) = maxiter (ct s) \<longrightarrow>
        converged_reason (ct (snd (adapt_and_check E a r p s))) = Some MaxIterationsReached)
   \<and> (fst (adapt_and_check E a r p s) = Continue \<and> fp_iteration (ct s) \<noteq> maxiter (ct s) \<longrightarrow>
        converged_reason (ct (snd (adapt_and_check E a r p s))) = converged_reason (ct s))"
  using adapt_and_check_reason [of E a r p s] adapt_and_check_no_raise [of E a r p s e]
  by (simp add: check_maxiter_def)

theorem check_maxiter_spec_witness:
  "fst (check_maxiter ((example_tracker 3 (1/100) 100)\<lparr>fp_iteration := 3\<rparr>))
   \<and> check_maxiter ((example_tracker 3 (1/100) 100)\<lparr>fp_iteration := 2\<rparr>)
       = (False, (example_tracker 3 (1/100) 100)\<lparr>fp_iteration := 2\<rparr>)
   \<and> converged_reason (snd (check_maxiter ((example_tracker 3 (1/100) 100)\<lparr>fp_iteration := 3\<rparr>)))
       = Some MaxIterationsReached
   \<and> fst (adapt_and_check (example_services 0 example_bundle []) example_args 200 (Func 2 [6])
        (initial_state (example_services 0 example_bundle []) example_args (TcInt 1))) = Continue
   \<and> converged_reason (ct (snd (adapt_and_check (example_services 0 example_bundle [])
        example_args 200 (Func 2 [6])
        (initial_state (example_services 0 example_bundle []) example_args (TcInt 1)))))
       = Some MaxIterationsReached"
proof -
  have c: "fst (adapt_and_check (example_services 0 example_bundle []) example_args 200 (Func 2 [6])
        (initial_state (example_services 0 example_bundle []) example_args (TcInt 1))) = Continue"
    by (simp add: adapt_and_check_def check_convergence_simps adapt_mesh_simps
        initial_state_def example_services_def check_elements_def example_tracker_def
        relative_change_below_def)
  have i: "fp_iteration (ct (initial_state (example_services 0 example_bundle []) example_args (TcInt 1)))
      = maxiter (ct (initial_state (example_services 0 example_bundle []) example_args (TcInt 1)))"
    by (simp add: initial_state_def example_services_def example_tracker_def)
  show ?thesis
    using c i
      check_maxiter_spec [where t = "(example_tracker 3 (1/100) 100)\<lparr>fp_iteration := 3\<rparr>"]
      check_maxiter_spec [where t = "(example_tracker 3 (1/100) 100)\<lparr>fp_iteration := 2\<rparr>"]
      check_maxiter_spec [where E = "example_services 0 example_bundle []" and a = example_args
        and r = 200 and p = "Func 2 [6]"
        and s = "initial_state (example_services 0 example_bundle []) example_args (TcInt 1)"]
    by (simp add: example_tracker_def)
qed

subsection \<open>The complexity ramp\<close>

text \<open>
  Claim C7. The ramp is a function of the base, the target and the iteration index
  alone. For a ramp configured to reach the target at iteration \<open>n > 0\<close> it equals the
  base at iteration 0; it equals the target at and after iteration \<open>n\<close>; and where the
  base is not above the target it stays between the two and never decreases as the
  index grows. With base 200 and target 1000 it is 200 at iteration 0 and 1000 at
  iteration \<open>n\<close>.
\<close>

theorem ramp_complexity_spec:
  "(0 < n \<longrightarrow> ramp_complexity n base target 0 = base)
   \<and> (int n \<le> i \<longrightarrow> ramp_complexity n base target i = target)
   \<and> (base \<le> target \<and> i \<le> j \<longrightarrow>
        ramp_complexity n base target i \<le> ramp_complexity n base target j)
   \<and> (base \<le> target \<longrightarrow>
        base \<le> ramp_complexity n base target i \<and> ramp_complexity n base target i \<le> target)
   \<and> ramp_complexity (Suc k) 200 1000 0 = 200
   \<and> ramp_complexity n 200 1000 (int n) = 1000"
proof (intro conjI impI)
  show "ramp_complexity n base target 0 = base" if "0 < n"
    using that by (simp add: ramp_complexity_def)
  show "ramp_complexity n base target i = target" if "int n \<le> i"
    using that by (simp add: ramp_complexity_def)
  show "ramp_complexity (Suc k) 200 1000 0 = 200"
    by (simp add: ramp_complexity_def)
  show "ramp_complexity n 200 1000 (int n) = 1000"
    by (simp add: ramp_complexity_def)
  have bounds: "base \<le> ramp_complexity n base target x \<and> ramp_complexity n base target x \<le> target"
    if bt: "base \<le> target" for x
  proof (cases "int n \<le> x \<or> x \<le> 0")
    case True
    with bt show ?thesis by (auto simp: ramp_complexity_def)
  next
    case False
    then have x: "0 < x" "x < int n" by auto
    then have n: "0 < real n" by simp
    have f: "0 \<le> real_of_int x / real n" "real_of_int x / real n \<le> 1"
      using x n by (simp_all add: field_simps)
    have r: "ramp_complexity n base target x = base + (target - base) * (real_of_int x / real n)"
      using x by (simp add: ramp_complexity_def)
    have "0 \<le> (target - base) * (real_of_int x / real n)"
      using bt f by (intro mult_nonneg_nonneg) simp_all
    moreover have "(target - base) * (real_of_int x / real n) \<le> (target - base) * 1"
      using bt f by (intro mult_left_mono) simp_all
    ultimately show ?thesis using r by simp
  qed
  show "base \<le> ramp_complexity n base target i" if "base \<le> target"
    using bounds [OF that] by simp
  show "ramp_complexity n base target i \<le> target" if "base \<le> target"
    using bounds [OF that] by simp
  show "ramp_complexity n base target i \<le> ramp_complexity n base target j"
    if h: "base \<le> target \<and> i \<le> j"
  proof -
    from h have bt: "base \<le> target" and ij: "i \<le> j" by simp_all
    show ?thesis
    proof (cases "int n \<le> j")
      case True
      then have "ramp_complexity n base target j = target" by (simp add: ramp_complexity_def)
      with bounds [OF bt, of i] show ?thesis by simp
    next
      case jn: False
      show ?thesis
      proof (cases "i \<le> 0")
        case True
        then have "ramp_complexity n base target i = base"
          using jn ij by (simp add: ramp_complexity_def)
        with bounds [OF bt, of j] show ?thesis by simp
      next
        case False
        then have i: "0 < i" "i < int n" and j: "0 < j" "j < int n" using ij jn by auto
        then have n: "0 < real n" by simp
        have "real_of_int i / real n \<le> real_of_int j / real n"
          using ij n by (simp add: divide_right_mono)
        then have "(target - base) * (real_of_int i / real n)
            \<le> (target - base) * (real_of_int j / real n)"
          using bt by (intro mult_left_mono) simp_all
        then show ?thesis using i j by (simp add: ramp_complexity_def)
      qed
    qed
  qed
qed

theorem ramp_complexity_spec_witness:
  "ramp_complexity 3 200 1000 0 = 200
   \<and> ramp_complexity 3 200 1000 3 = 1000
   \<and> ramp_complexity 3 200 1000 5 = 1000
   \<and> ramp_complexity 3 200 1000 1 \<le> ramp_complexity 3 200 1000 2
   \<and> 200 \<le> ramp_complexity 3 200 1000 1 \<and> ramp_complexity 3 200 1000 1 \<le> 1000"
  using ramp_complexity_spec [where n = 3 and base = 200 and target = 1000 and i = 1 and j = 2]
    ramp_complexity_spec [where n = 3 and base = 200 and target = 1000 and i = 3]
    ramp_complexity_spec [where n = 3 and base = 200 and target = 1000 and i = 5]
  by simp

subsection \<open>The bundle and the early exits\<close>

lemma example_services_simps:
  "go_metric (example_services mx out target) m t k = (out, t)"
  "dat_data_flatten (example_services mx out target) d = target"
  "extract_features (example_services mx out target) f g
     = [(''x'', [Finite 1]), (''y'', [Finite 2])]"
  "load_mesh (example_services mx out target) md tc = 100"
  "convergence_tracker (example_services mx out target) m
     = example_tracker mx (1/100) m"
  "num_cells (example_services mx out target) m = m"
  "adapt (example_services mx out target) m g' = 2 * m"
  "qoi_unit (example_services mx out target) = ''W''"
  "dof_count (example_services mx out target) f = map (\<lambda>d. 10 * d) (fcomps f)"
  "ramp_iterations (example_services mx out target) = 3"
  by (simp_all add: example_services_def)

lemma example_initial_state:
  "initial_state (example_services mx out target) example_args tc
     = \<lparr>mesh = 100, ct = example_tracker mx (1/100) 100,
        kwargs = \<lparr>enrichment_method = ''h'', average = False, anisotropic = True,
                  retall = True, kw_target_complexity = None, kw_init = None\<rparr>,
        trace = [Print (TestCaseLine tc), Print (MeshLine 0),
                 Print (ElementCountOld (Some 100))]\<rparr>"
  by (simp add: initial_state_def example_services_simps example_args_def no_outputs_def
      example_tracker_def)

lemma solve_eq:
  "solve E a i s =
     (fst (go_metric E (mesh s) ((ct s)\<lparr>fp_iteration := i\<rparr>)
             ((kwargs s)\<lparr>kw_target_complexity :=
                 Some (ramp_complexity (ramp_iterations E) (base_complexity a) (target_complexity a) i)\<rparr>)),
      ramp_complexity (ramp_iterations E) (base_complexity a) (target_complexity a) i,
      s\<lparr>ct := snd (go_metric E (mesh s) ((ct s)\<lparr>fp_iteration := i\<rparr>)
             ((kwargs s)\<lparr>kw_target_complexity :=
                 Some (ramp_complexity (ramp_iterations E) (base_complexity a) (target_complexity a) i)\<rparr>)),
        kwargs := (kwargs s)\<lparr>kw_target_complexity :=
                 Some (ramp_complexity (ramp_iterations E) (base_complexity a) (target_complexity a) i)\<rparr>,
        trace := trace s @ [GoMetric i
                 (ramp_complexity (ramp_iterations E) (base_complexity a) (target_complexity a) i)
                 (kw_init (kwargs s) \<noteq> None)]\<rparr>)"
  by (simp add: solve_def Let_def emit_def split: prod.splits)

lemma solve_frame:
  "mesh (snd (snd (solve E a i s))) = mesh s"
  "kw_init (kwargs (snd (snd (solve E a i s)))) = kw_init (kwargs s)"
  "trace (snd (snd (solve E a i s)))
     = trace s @ [GoMetric i (fst (snd (solve E a i s))) (kw_init (kwargs s) \<noteq> None)]"
  by (simp_all add: solve_eq)

lemma inspect_no_adjoint:
  "out_qoi out = Some q \<Longrightarrow> out_forward out = Some f \<Longrightarrow> out_adjoint out = None \<Longrightarrow>
     inspect E a tc i r out s
       = (Break, emit [Print (QuantityOfInterest q (qoi_unit E)),
                       Print (DoFCount (sum_list (dof_count E f)))] s)"
  by (simp add: inspect_def getitem_def Let_def emit_emit)

lemma inspect_no_metric:
  "out_qoi out = Some q \<Longrightarrow> out_forward out = Some f \<Longrightarrow> out_adjoint out = Some g \<Longrightarrow>
   out_estimator out = Some est \<Longrightarrow> out_metric out = None \<Longrightarrow>
     inspect E a tc i r out s
       = (Break, emit [Print (QuantityOfInterest q (qoi_unit E)),
                       Print (DoFCount (sum_list (dof_count E f))),
                       Print (ErrorEstimator est)] s)"
  by (simp add: inspect_def getitem_def Let_def emit_emit)

lemma inspect_full:
  "out_qoi out = Some q \<Longrightarrow> out_forward out = Some f \<Longrightarrow> out_adjoint out = Some g \<Longrightarrow>
   out_estimator out = Some est \<Longrightarrow> out_dwr out = Some d \<Longrightarrow> out_metric out = Some p \<Longrightarrow>
     inspect E a tc i r out s
       = refine E a tc i r f g d p
           (emit [Print (QuantityOfInterest q (qoi_unit E)),
                  Print (DoFCount (sum_list (dof_count E f))),
                  Print (ErrorEstimator est)] s)"
  by (simp add: inspect_def getitem_def Let_def emit_emit)

lemma inspect_no_estimator:
  "out_qoi out = Some q \<Longrightarrow> out_forward out = Some f \<Longrightarrow> out_adjoint out = Some g \<Longrightarrow>
   out_estimator out = None \<Longrightarrow>
     fst (inspect E a tc i r out s) = Raise (KeyError ''estimator'')"
  by (simp add: inspect_def getitem_def Let_def)

lemma body_eq:
  "body E a tc i s
     = inspect E a tc i (fst (snd (solve E a i s))) (fst (solve E a i s)) (snd (snd (solve E a i s)))"
  by (simp add: body_def split: prod.splits)

lemma adapt_loop_Cons:
  "adapt_loop E a tc (i # rest) s =
     (case fst (body E a tc i s) of
        Continue \<Rightarrow> adapt_loop E a tc rest (snd (body E a tc i s))
      | Break \<Rightarrow> (None, snd (body E a tc i s))
      | Raise e \<Rightarrow> (Some e, snd (body E a tc i s)))"
  by (simp split: prod.splits outcome.splits)

text \<open>
  Claim C2, as the code has it. Lines 84 and 88 guard the keys \<open>adjoint\<close> and \<open>metric\<close>.
  When \<open>go_metric\<close> returns a bundle without the adjoint, the pass reports the quantity
  of interest and the degree-of-freedom count and ends the loop; when the bundle has
  the adjoint and the estimator but no metric, the pass reports the estimator as well
  and ends the loop. In both cases no exception is raised, the mesh is the one the pass
  started with and nothing but these reports follows the call of \<open>go_metric\<close> in the
  trace: no feature extraction, no metric construction, no mesh adaptation.
\<close>

theorem missing_keys_exit:
  "solve E a i s = (out, r, s1) \<and> out_qoi out = Some q \<and> out_forward out = Some f \<longrightarrow>
     (out_adjoint out = None \<longrightarrow>
        body E a tc i s
          = (Break, emit [Print (QuantityOfInterest q (qoi_unit E)),
                          Print (DoFCount (sum_list (dof_count E f)))] s1)
        \<and> adapt_loop E a tc (i # rest) s
          = (None, emit [Print (QuantityOfInterest q (qoi_unit E)),
                         Print (DoFCount (sum_list (dof_count E f)))] s1)
        \<and> mesh (snd (body E a tc i s)) = mesh s)
   \<and> (out_adjoint out \<noteq> None \<and> out_estimator out = Some est \<and> out_metric out = None \<longrightarrow>
        body E a tc i s
          = (Break, emit [Print (QuantityOfInterest q (qoi_unit E)),
                          Print (DoFCount (sum_list (dof_count E f))),
                          Print (ErrorEstimator est)] s1)
        \<and> adapt_loop E a tc (i # rest) s
          = (None, emit [Print (QuantityOfInterest q (qoi_unit E)),
                         Print (DoFCount (sum_list (dof_count E f))),
                         Print (ErrorEstimator est)] s1)
        \<and> mesh (snd (body E a tc i s)) = mesh s)"
proof (intro impI conjI)
  assume h: "solve E a i s = (out, r, s1) \<and> out_qoi out = Some q \<and> out_forward out = Some f"
  then have b: "body E a tc i s = inspect E a tc i r out s1"
    by (simp add: body_eq)
  from h have m: "mesh s1 = mesh s"
    using solve_frame(1) [of E a i s] by simp
  {
    assume "out_adjoint out = None"
    with h b have e: "body E a tc i s
          = (Break, emit [Print (QuantityOfInterest q (qoi_unit E)),
                          Print (DoFCount (sum_list (dof_count E f)))] s1)"
      by (simp add: inspect_no_adjoint)
    then show "body E a tc i s
          = (Break, emit [Print (QuantityOfInterest q (qoi_unit E)),
                          Print (DoFCount (sum_list (dof_count E f)))] s1)" .
    from e show "adapt_loop E a tc (i # rest) s
          = (None, emit [Print (QuantityOfInterest q (qoi_unit E)),
                         Print (DoFCount (sum_list (dof_count E f)))] s1)"
      by (simp add: adapt_loop_Cons del: adapt_loop.simps)
    from e m show "mesh (snd (body E a tc i s)) = mesh s"
      by (simp add: emit_simps)
  }
  {
    assume k: "out_adjoint out \<noteq> None \<and> out_estimator out = Some est \<and> out_metric out = None"
    then obtain g where "out_adjoint out = Some g" by auto
    with h b k have e: "body E a tc i s
          = (Break, emit [Print (QuantityOfInterest q (qoi_unit E)),
                          Print (DoFCount (sum_list (dof_count E f))),
                          Print (ErrorEstimator est)] s1)"
      by (simp add: inspect_no_metric)
    then show "body E a tc i s
          = (Break, emit [Print (QuantityOfInterest q (qoi_unit E)),
                          Print (DoFCount (sum_list (dof_count E f))),
                          Print (ErrorEstimator est)] s1)" .
    from e show "adapt_loop E a tc (i # rest) s
          = (None, emit [Print (QuantityOfInterest q (qoi_unit E)),
                         Print (DoFCount (sum_list (dof_count E f))),
                         Print (ErrorEstimator est)] s1)"
      by (simp add: adapt_loop_Cons del: adapt_loop.simps)
    from e m show "mesh (snd (body E a tc i s)) = mesh s"
      by (simp add: emit_simps)
  }
qed


theorem missing_keys_exit_witness:
  "fst (body (example_services 1 (example_bundle\<lparr>out_adjoint := None\<rparr>) []) example_args (TcInt 1) 0
        (initial_state (example_services 1 (example_bundle\<lparr>out_adjoint := None\<rparr>) [])
           example_args (TcInt 1))) = Break
   \<and> fst (adapt_loop (example_services 1 (example_bundle\<lparr>out_adjoint := None\<rparr>) [])
        example_args (TcInt 1) [0, 1]
        (initial_state (example_services 1 (example_bundle\<lparr>out_adjoint := None\<rparr>) [])
           example_args (TcInt 1))) = None
   \<and> fst (body (example_services 1 (example_bundle\<lparr>out_metric := None\<rparr>) []) example_args (TcInt 1) 0
        (initial_state (example_services 1 (example_bundle\<lparr>out_metric := None\<rparr>) [])
           example_args (TcInt 1))) = Break
   \<and> mesh (snd (body (example_services 1 (example_bundle\<lparr>out_metric := None\<rparr>) [])
        example_args (TcInt 1) 0
        (initial_state (example_services 1 (example_bundle\<lparr>out_metric := None\<rparr>) [])
           example_args (TcInt 1)))) = 100"
proof -
  let ?E1 = "example_services 1 (example_bundle\<lparr>out_adjoint := None\<rparr>) []"
  let ?E2 = "example_services 1 (example_bundle\<lparr>out_metric := None\<rparr>) []"
  let ?s1 = "initial_state ?E1 example_args (TcInt 1)"
  let ?s2 = "initial_state ?E2 example_args (TcInt 1)"
  have o1: "fst (solve ?E1 example_args 0 ?s1) = example_bundle\<lparr>out_adjoint := None\<rparr>"
    by (simp add: solve_eq example_services_simps)
  have o2: "fst (solve ?E2 example_args 0 ?s2) = example_bundle\<lparr>out_metric := None\<rparr>"
    by (simp add: solve_eq example_services_simps)
  have m: "mesh ?s2 = 100"
    by (simp add: example_initial_state)
  have b: "out_qoi example_bundle = Some (Finite 1)" "out_forward example_bundle = Some (Func 0 [7, 2])"
    "out_estimator example_bundle = Some (Finite (1/2))" "out_adjoint example_bundle \<noteq> None"
    by (simp_all add: example_bundle_def)
  obtain r1 t1 where v1: "solve ?E1 example_args 0 ?s1 = (example_bundle\<lparr>out_adjoint := None\<rparr>, r1, t1)"
    using o1 by (metis prod.collapse)
  obtain r2 t2 where v2: "solve ?E2 example_args 0 ?s2 = (example_bundle\<lparr>out_metric := None\<rparr>, r2, t2)"
    using o2 by (metis prod.collapse)
  have k1: "body ?E1 example_args (TcInt 1) 0 ?s1
          = (Break, emit [Print (QuantityOfInterest (Finite 1) (qoi_unit ?E1)),
                          Print (DoFCount (sum_list (dof_count ?E1 (Func 0 [7, 2]))))] t1)
      \<and> adapt_loop ?E1 example_args (TcInt 1) [0, 1] ?s1
          = (None, emit [Print (QuantityOfInterest (Finite 1) (qoi_unit ?E1)),
                         Print (DoFCount (sum_list (dof_count ?E1 (Func 0 [7, 2]))))] t1)
      \<and> mesh (snd (body ?E1 example_args (TcInt 1) 0 ?s1)) = mesh ?s1"
    by (rule missing_keys_exit [where out = "example_bundle\<lparr>out_adjoint := None\<rparr>"
          and r = r1, THEN mp, THEN conjunct1, THEN mp])
      (simp_all add: v1 b)
  have k2: "body ?E2 example_args (TcInt 1) 0 ?s2
          = (Break, emit [Print (QuantityOfInterest (Finite 1) (qoi_unit ?E2)),
                          Print (DoFCount (sum_list (dof_count ?E2 (Func 0 [7, 2])))),
                          Print (ErrorEstimator (Finite (1/2)))] t2)
      \<and> adapt_loop ?E2 example_args (TcInt 1) [0, 1] ?s2
          = (None, emit [Print (QuantityOfInterest (Finite 1) (qoi_unit ?E2)),
                         Print (DoFCount (sum_list (dof_count ?E2 (Func 0 [7, 2])))),
                         Print (ErrorEstimator (Finite (1/2)))] t2)
      \<and> mesh (snd (body ?E2 example_args (TcInt 1) 0 ?s2)) = mesh ?s2"
    by (rule missing_keys_exit [where out = "example_bundle\<lparr>out_metric := None\<rparr>"
          and r = r2, THEN mp, THEN conjunct2, THEN mp])
      (simp_all add: v2 b)
  have a1: "fst (body ?E1 example_args (TcInt 1) 0 ?s1) = Break"
    using k1 [THEN conjunct1] by simp
  have a2: "fst (adapt_loop ?E1 example_args (TcInt 1) [0, 1] ?s1) = None"
    using k1 [THEN conjunct2, THEN conjunct1] by (simp del: adapt_loop.simps)
  have a3: "fst (body ?E2 example_args (TcInt 1) 0 ?s2) = Break"
    using k2 [THEN conjunct1] by simp
  have a4: "mesh (snd (body ?E2 example_args (TcInt 1) 0 ?s2)) = 100"
    using k2 [THEN conjunct2, THEN conjunct2] m by simp
  show ?thesis
    by (intro conjI; fact)
qed

text \<open>
  The claim as stated fails for a bundle that lacks only the estimator: line 86 reads
  the key without a guard and the pass ends with a \<open>KeyError\<close>.
\<close>

theorem missing_estimator_counterexample:
  "out_estimator (example_bundle\<lparr>out_estimator := None\<rparr>) = None
   \<and> fst (body (example_services 1 (example_bundle\<lparr>out_estimator := None\<rparr>) [])
        example_args (TcInt 1) 0
        (initial_state (example_services 1 (example_bundle\<lparr>out_estimator := None\<rparr>) [])
           example_args (TcInt 1))) = Raise (KeyError ''estimator'')
   \<and> fst (adapt_loop (example_services 1 (example_bundle\<lparr>out_estimator := None\<rparr>) [])
        example_args (TcInt 1) [0, 1]
        (initial_state (example_services 1 (example_bundle\<lparr>out_estimator := None\<rparr>) [])
           example_args (TcInt 1))) = Some (KeyError ''estimator'')"
proof -
  let ?E = "example_services 1 (example_bundle\<lparr>out_estimator := None\<rparr>) []"
  let ?s = "initial_state ?E example_args (TcInt 1)"
  have o: "fst (solve ?E example_args 0 ?s) = example_bundle\<lparr>out_estimator := None\<rparr>"
    by (simp add: solve_eq example_services_simps)
  have b: "fst (body ?E example_args (TcInt 1) 0 ?s) = Raise (KeyError ''estimator'')"
    unfolding body_eq o
    by (rule inspect_no_estimator) (simp_all add: example_bundle_def)
  then show ?thesis
    by (simp add: adapt_loop_Cons del: adapt_loop.simps)
qed

subsection \<open>Feature extraction\<close>

lemma finite_not_nan: "\<forall>x\<in>set xs. isfinite x \<Longrightarrow> \<not> list_ex isnan xs"
  by (auto simp: list_ex_iff isnan_def isfinite_def)

text \<open>
  Claim C3, as the code has it. Line 118 asserts that the target holds no NaN. With
  feature extraction switched on, a target with at least one NaN ends the pass with
  the \<open>AssertionError\<close> of line 118, an exception of the pass ends the loop with that
  exception, and the trace of the pass ends with the call of feature extraction: no
  file has been saved. A target without NaN, which every all-finite target is, raises
  nothing in the pass, and its feature files and its target file are saved.
\<close>

theorem nan_target_aborts:
  "\<not> optimise a \<longrightarrow>
     (list_ex isnan (dat_data_flatten E d) \<longrightarrow>
        harvest E a tc i f g d s = (Some (AssertionError 118), emit [ExtractFeatures] s)
        \<and> fst (refine E a tc i r f g d p s) = Raise (AssertionError 118)
        \<and> trace (snd (refine E a tc i r f g d p s))
            = trace s
              @ (if \<not> no_outputs a
                 then [PvdWrite ForwardPvd, PvdWrite AdjointPvd, PvdWrite EstimatorPvd,
                       PvdWrite MetricPvd]
                 else [])
              @ [ExtractFeatures])
   \<and> (\<not> list_ex isnan (dat_data_flatten E d) \<longrightarrow>
        harvest E a tc i f g d s
          = (None,
             emit (ExtractFeatures
                   # map (\<lambda>(k, v). NpSave (FeatureFile k tc (approach a) i) v)
                       (extract_features E f g)
                   @ [NpSave (TargetFile tc (approach a) i) (dat_data_flatten E d)]) s)
        \<and> fst (refine E a tc i r f g d p s) \<noteq> Raise e)
   \<and> ((\<forall>x\<in>set (dat_data_flatten E d). isfinite x) \<longrightarrow>
        \<not> list_ex isnan (dat_data_flatten E d))
   \<and> (fst (body E a tc i s) = Raise e \<longrightarrow>
        adapt_loop E a tc (i # rest) s = (Some e, snd (body E a tc i s)))"
proof (intro impI conjI)
  assume o: "\<not> optimise a"
  {
    assume n: "list_ex isnan (dat_data_flatten E d)"
    from o n show "harvest E a tc i f g d s = (Some (AssertionError 118), emit [ExtractFeatures] s)"
      by (rule harvest_cases(2))
    from o n show "fst (refine E a tc i r f g d p s) = Raise (AssertionError 118)"
      by (simp add: refine_nan)
    from o n show "trace (snd (refine E a tc i r f g d p s))
            = trace s
              @ (if \<not> no_outputs a
                 then [PvdWrite ForwardPvd, PvdWrite AdjointPvd, PvdWrite EstimatorPvd,
                       PvdWrite MetricPvd]
                 else [])
              @ [ExtractFeatures]"
      by (simp add: refine_nan emit_simps set_init_simps write_outputs_simps)
  }
  {
    assume n: "\<not> list_ex isnan (dat_data_flatten E d)"
    from o n show "harvest E a tc i f g d s
          = (None,
             emit (ExtractFeatures
                   # map (\<lambda>(k, v). NpSave (FeatureFile k tc (approach a) i) v)
                       (extract_features E f g)
                   @ [NpSave (TargetFile tc (approach a) i) (dat_data_flatten E d)]) s)"
      by (rule harvest_cases(3))
    from n show "fst (refine E a tc i r f g d p s) \<noteq> Raise e"
      by (rule refine_no_nan)
  }
  show "\<not> list_ex isnan (dat_data_flatten E d)"
    if "\<forall>x\<in>set (dat_data_flatten E d). isfinite x"
    using that by (rule finite_not_nan)
  show "adapt_loop E a tc (i # rest) s = (Some e, snd (body E a tc i s))"
    if "fst (body E a tc i s) = Raise e"
    using that by (simp add: adapt_loop_Cons del: adapt_loop.simps)
qed

theorem nan_target_aborts_witness:
  "fst (refine (example_services 1 example_bundle [Finite 1, NaN]) example_args (TcInt 1) 0 200
        (Func 0 [7, 2]) (Func 0 [3, 4]) (Func 3 [5]) (Func 2 [6])
        (initial_state (example_services 1 example_bundle [Finite 1, NaN]) example_args (TcInt 1)))
     = Raise (AssertionError 118)
   \<and> trace (snd (refine (example_services 1 example_bundle [Finite 1, NaN]) example_args (TcInt 1) 0 200
        (Func 0 [7, 2]) (Func 0 [3, 4]) (Func 3 [5]) (Func 2 [6])
        (initial_state (example_services 1 example_bundle [Finite 1, NaN]) example_args (TcInt 1))))
     = [Print (TestCaseLine (TcInt 1)), Print (MeshLine 0), Print (ElementCountOld (Some 100)),
        ExtractFeatures]
   \<and> harvest (example_services 1 example_bundle [Finite 1, Finite 2]) example_args (TcInt 1) 0
        (Func 0 [7, 2]) (Func 0 [3, 4]) (Func 3 [5])
        (initial_state (example_services 1 example_bundle [Finite 1, Finite 2]) example_args (TcInt 1))
     = (None, emit [ExtractFeatures,
                    NpSave (FeatureFile ''x'' (TcInt 1) ''anisotropic'' 0) [Finite 1],
                    NpSave (FeatureFile ''y'' (TcInt 1) ''anisotropic'' 0) [Finite 2],
                    NpSave (TargetFile (TcInt 1) ''anisotropic'' 0) [Finite 1, Finite 2]]
          (initial_state (example_services 1 example_bundle [Finite 1, Finite 2]) example_args (TcInt 1)))"
proof -
  let ?E1 = "example_services 1 example_bundle [Finite 1, NaN]"
  let ?E2 = "example_services 1 example_bundle [Finite 1, Finite 2]"
  have i: "trace (initial_state ?E1 example_args (TcInt 1))
      = [Print (TestCaseLine (TcInt 1)), Print (MeshLine 0), Print (ElementCountOld (Some 100))]"
    by (simp add: example_initial_state)
  have a: "\<not> optimise example_args" "no_outputs example_args" "approach example_args = ''anisotropic''"
    by (simp_all add: example_args_def no_outputs_def)
  from nan_target_aborts [where E = ?E1 and a = example_args and d = "Func 3 [5]"
      and tc = "TcInt 1" and i = 0 and f = "Func 0 [7, 2]" and g = "Func 0 [3, 4]"
      and r = 200 and p = "Func 2 [6]" and s = "initial_state ?E1 example_args (TcInt 1)"]
    nan_target_aborts [where E = ?E2 and a = example_args and d = "Func 3 [5]"
      and tc = "TcInt 1" and i = 0 and f = "Func 0 [7, 2]" and g = "Func 0 [3, 4]"
      and s = "initial_state ?E2 example_args (TcInt 1)"]
  show ?thesis
    by (simp add: example_services_simps i a isnan_def)
qed

text \<open>
  The claim as stated fails for a target that holds an infinity and no NaN: the value is
  not finite, nothing is raised and the target file is saved with it.
\<close>

theorem infinite_target_counterexample:
  "\<not> isfinite PosInf
   \<and> fst (harvest (example_services 1 example_bundle [PosInf]) example_args (TcInt 1) 0
        (Func 0 [7, 2]) (Func 0 [3, 4]) (Func 3 [5])
        (initial_state (example_services 1 example_bundle [PosInf]) example_args (TcInt 1))) = None
   \<and> NpSave (TargetFile (TcInt 1) ''anisotropic'' 0) [PosInf]
       \<in> set (trace (snd (harvest (example_services 1 example_bundle [PosInf]) example_args (TcInt 1) 0
        (Func 0 [7, 2]) (Func 0 [3, 4]) (Func 3 [5])
        (initial_state (example_services 1 example_bundle [PosInf]) example_args (TcInt 1)))))"
proof -
  let ?E = "example_services 1 example_bundle [PosInf]"
  have t: "dat_data_flatten ?E (Func 3 [5]) = [PosInf]"
    by (simp add: example_services_simps)
  have a: "\<not> optimise example_args" "approach example_args = ''anisotropic''"
    by (simp_all add: example_args_def)
  have n: "\<not> list_ex isnan (dat_data_flatten ?E (Func 3 [5]))"
    by (simp add: t isnan_def)
  show ?thesis
    by (simp add: harvest_cases(3) [OF a(1) n] emit_simps t a isfinite_def)
qed

subsection \<open>Carrying the solution forward\<close>






subsection \<open>The passes of the loop\<close>

lemma solves_append: "solves (xs @ ys) = solves xs @ solves ys"
  by (induction xs rule: solves.induct) simp_all

lemma adaptations_append: "adaptations (xs @ ys) = adaptations xs + adaptations ys"
  by (induction xs) simp_all

lemma counter_matches_append:
  "counter_matches n (xs @ ys)
     \<longleftrightarrow> counter_matches n xs \<and> counter_matches (n + adaptations xs) ys"
  by (induction n xs rule: counter_matches.induct) auto

lemma counter_matches_no_solves: "solves es = [] \<Longrightarrow> counter_matches n es"
  by (induction n es rule: counter_matches.induct) auto

lemma solves_saves: "solves (map (\<lambda>(k, v). NpSave (h k) v) fs) = []"
  by (induction fs) auto

lemma adaptations_saves: "adaptations (map (\<lambda>(k, v). NpSave (h k) v) fs) = 0"
  by (induction fs) auto

text \<open>What each stage adds to the trace: no call of \<open>go_metric\<close>, and its adaptations.\<close>

lemma harvest_adds:
  "\<exists>es. trace (snd (harvest E a tc i f g d s)) = trace s @ es
        \<and> solves es = [] \<and> adaptations es = 0"
proof (cases "optimise a")
  case True
  then show ?thesis by (simp add: harvest_cases)
next
  case o: False
  show ?thesis
  proof (cases "list_ex isnan (dat_data_flatten E d)")
    case True
    with o show ?thesis by (simp add: harvest_cases emit_simps)
  next
    case False
    with o show ?thesis
      by (simp add: harvest_cases emit_simps solves_append adaptations_append
          solves_saves adaptations_saves)
  qed
qed

lemma adapt_and_check_adds:
  "\<exists>es. trace (snd (adapt_and_check E a r p s)) = trace s @ es
        \<and> solves es = [] \<and> adaptations es = 1"
  by (simp add: adapt_and_check_def check_convergence_simps adapt_mesh_simps)

lemma refine_adds:
  "\<exists>es. trace (snd (refine E a tc i r f g d p s)) = trace s @ es
        \<and> solves es = [] \<and> adaptations es \<le> 1
        \<and> (fst (refine E a tc i r f g d p s) = Continue \<longrightarrow> adaptations es = 1)"
proof -
  let ?s0 = "set_init E a f (write_outputs a s)"
  let ?h = "harvest E a tc i f g d ?s0"
  obtain e0 where e0: "trace ?s0 = trace s @ e0" "solves e0 = []" "adaptations e0 = 0"
    by (simp add: set_init_simps write_outputs_simps)
  from harvest_adds [of E a tc i f g d ?s0]
  obtain e1 where e1: "trace (snd ?h) = trace ?s0 @ e1" "solves e1 = []" "adaptations e1 = 0"
    by blast
  show ?thesis
  proof (cases "fst ?h")
    case (Some e)
    then have "refine E a tc i r f g d p s = (Raise e, snd ?h)"
      by (simp add: refine_eq)
    with e0 e1 show ?thesis
      by (simp add: solves_append adaptations_append)
  next
    case None
    then have r: "refine E a tc i r f g d p s = adapt_and_check E a r p (snd ?h)"
      by (simp add: refine_eq)
    from adapt_and_check_adds [of E a r p "snd ?h"]
    obtain e2 where e2: "trace (snd (adapt_and_check E a r p (snd ?h))) = trace (snd ?h) @ e2"
      "solves e2 = []" "adaptations e2 = 1"
      by blast
    have "trace (snd (refine E a tc i r f g d p s)) = trace s @ (e0 @ e1 @ e2)"
      using r e0 e1 e2 by simp
    moreover have "solves (e0 @ e1 @ e2) = []" "adaptations (e0 @ e1 @ e2) = 1"
      using e0 e1 e2 by (simp_all add: solves_append adaptations_append)
    ultimately show ?thesis by (metis le_refl)
  qed
qed

lemma inspect_adds:
  "\<exists>es. trace (snd (inspect E a tc i r out s)) = trace s @ es
        \<and> solves es = [] \<and> adaptations es \<le> 1
        \<and> (fst (inspect E a tc i r out s) = Continue \<longrightarrow> adaptations es = 1)"
proof -
  have early: "\<exists>es. trace (snd (x, emit ps s)) = trace s @ es
        \<and> solves es = [] \<and> adaptations es \<le> 1
        \<and> (fst (x, emit ps s) = Continue \<longrightarrow> adaptations es = 1)"
    if "x \<noteq> Continue" "solves ps = []" "adaptations ps = 0" for x ps
    using that by (simp add: emit_simps)
  have late: "\<exists>es. trace (snd (refine E a tc i r f g d p (emit ps s))) = trace s @ es
        \<and> solves es = [] \<and> adaptations es \<le> 1
        \<and> (fst (refine E a tc i r f g d p (emit ps s)) = Continue \<longrightarrow> adaptations es = 1)"
    if ps: "solves ps = []" "adaptations ps = 0" for f g d p ps
  proof -
    from refine_adds [of E a tc i r f g d p "emit ps s"]
    obtain es where es: "trace (snd (refine E a tc i r f g d p (emit ps s))) = trace (emit ps s) @ es"
      "solves es = []" "adaptations es \<le> 1"
      "fst (refine E a tc i r f g d p (emit ps s)) = Continue \<longrightarrow> adaptations es = 1"
      by blast
    have "trace (snd (refine E a tc i r f g d p (emit ps s))) = trace s @ (ps @ es)"
      using es by (simp add: emit_simps)
    moreover have "solves (ps @ es) = []" "adaptations (ps @ es) = adaptations es"
      using ps es by (simp_all add: solves_append adaptations_append)
    ultimately show ?thesis using es by metis
  qed
  have none: "\<exists>es. trace (snd (x, s)) = trace s @ es
        \<and> solves es = [] \<and> adaptations es \<le> 1
        \<and> (fst (x, s) = Continue \<longrightarrow> adaptations es = 1)"
    if "x \<noteq> Continue" for x
    using that by simp
  show ?thesis
  proof (cases "out_qoi out")
    case None
    then show ?thesis by (simp add: inspect_def getitem_def)
  next
    case q: (Some q)
    show ?thesis
    proof (cases "out_forward out")
      case None
      with q show ?thesis by (simp add: inspect_def getitem_def)
    next
      case f: (Some f)
      show ?thesis
      proof (cases "out_adjoint out")
        case None
        with q f early [of Break "[Print (QuantityOfInterest q (qoi_unit E)),
                       Print (DoFCount (sum_list (dof_count E f)))]"]
        show ?thesis by (simp add: inspect_no_adjoint)
      next
        case g: (Some g)
        show ?thesis
        proof (cases "out_estimator out")
          case None
          with q f g early [of "Raise (KeyError ''estimator'')"
              "[Print (QuantityOfInterest q (qoi_unit E)),
                Print (DoFCount (sum_list (dof_count E f)))]"]
          show ?thesis by (simp add: inspect_def getitem_def Let_def emit_emit)
        next
          case est: (Some est)
          show ?thesis
          proof (cases "out_metric out")
            case None
            with q f g est early [of Break "[Print (QuantityOfInterest q (qoi_unit E)),
                       Print (DoFCount (sum_list (dof_count E f))),
                       Print (ErrorEstimator est)]"]
            show ?thesis by (simp add: inspect_no_metric)
          next
            case p: (Some p)
            show ?thesis
            proof (cases "out_dwr out")
              case None
              with q f g est p early [of "Raise (KeyError ''dwr'')"
                  "[Print (QuantityOfInterest q (qoi_unit E)),
                    Print (DoFCount (sum_list (dof_count E f))),
                    Print (ErrorEstimator est)]"]
              show ?thesis by (simp add: inspect_def getitem_def Let_def emit_emit)
            next
              case d: (Some d)
              with q f g est p late [of "[Print (QuantityOfInterest q (qoi_unit E)),
                    Print (DoFCount (sum_list (dof_count E f))),
                    Print (ErrorEstimator est)]" f g d p]
              show ?thesis by (simp add: inspect_full)
            qed
          qed
        qed
      qed
    qed
  qed
qed

lemma body_adds:
  "\<exists>es r b. trace (snd (body E a tc i s)) = trace s @ GoMetric i r b # es
        \<and> solves es = [] \<and> adaptations es \<le> 1
        \<and> (fst (body E a tc i s) = Continue \<longrightarrow> adaptations es = 1)"
proof -
  let ?v = "solve E a i s"
  from inspect_adds [of E a tc i "fst (snd ?v)" "fst ?v" "snd (snd ?v)"]
  obtain es where es:
    "trace (snd (body E a tc i s)) = trace (snd (snd ?v)) @ es"
    "solves es = []" "adaptations es \<le> 1"
    "fst (body E a tc i s) = Continue \<longrightarrow> adaptations es = 1"
    unfolding body_eq by blast
  have "trace (snd (body E a tc i s))
      = trace s @ GoMetric i (fst (snd ?v)) (kw_init (kwargs s) \<noteq> None) # es"
    using es(1) by (simp add: solve_frame)
  with es show ?thesis by blast
qed

lemma upto_as_upt: "[int k..int k + int n - 1] = map int [k..<k + n]"
proof (induction n arbitrary: k)
  case 0
  then show ?case by simp
next
  case (Suc n)
  have "[int k..int k + int (Suc n) - 1] = int k # [int k + 1..int k + int (Suc n) - 1]"
    by (rule upto_rec1) simp
  also have "[int k + 1..int k + int (Suc n) - 1] = [int (Suc k)..int (Suc k) + int n - 1]"
    by (simp add: add.commute)
  also have "\<dots> = map int [Suc k..<Suc k + n]"
    by (rule Suc.IH)
  finally show ?case by (simp add: upt_conv_Cons)
qed

lemma range_maxiter: "[0..m] = map int [0..<0 + nat (m + 1)]"
proof (cases "0 \<le> m")
  case True
  with upto_as_upt [of 0 "nat (m + 1)"] show ?thesis by simp
next
  case False
  then show ?thesis by simp
qed

text \<open>
  The loop over consecutive indices from \<open>k\<close>: \<open>p\<close> passes were run, the calls of
  \<open>go_metric\<close> carry the counters \<open>k, k + 1, \<dots>\<close>, every pass but possibly the last
  adapted the mesh, and the counter of every call is the number of adaptations before it.
\<close>

lemma loop_passes:
  "\<exists>es p. trace (snd (adapt_loop E a tc (map int [k..<k + n]) s)) = trace s @ es
        \<and> p \<le> n \<and> solves es = map int [k..<k + p]
        \<and> adaptations es \<le> p \<and> p \<le> adaptations es + 1
        \<and> counter_matches k es"
proof (induction n arbitrary: k s)
  case 0
  show ?case by (rule exI [of _ "[]"], rule exI [of _ 0]) simp
next
  case (Suc n)
  have l: "map int [k..<k + Suc n] = int k # map int [Suc k..<Suc k + n]"
    by (simp add: upt_conv_Cons)
  let ?b = "body E a tc (int k) s"
  from body_adds [of E a tc "int k" s]
  obtain e1 r b where e1: "trace (snd ?b) = trace s @ GoMetric (int k) r b # e1"
    "solves e1 = []" "adaptations e1 \<le> 1" "fst ?b = Continue \<longrightarrow> adaptations e1 = 1"
    by blast
  have c1: "counter_matches k e1"
    using e1(2) by (rule counter_matches_no_solves)
  show ?case
  proof (cases "fst ?b = Continue")
    case True
    then have r: "adapt_loop E a tc (map int [k..<k + Suc n]) s
        = adapt_loop E a tc (map int [Suc k..<Suc k + n]) (snd ?b)"
      unfolding l by (simp add: adapt_loop_Cons del: adapt_loop.simps)
    from Suc.IH [of "Suc k" "snd ?b"]
    obtain e2 p where e2:
      "trace (snd (adapt_loop E a tc (map int [Suc k..<Suc k + n]) (snd ?b))) = trace (snd ?b) @ e2"
      "p \<le> n" "solves e2 = map int [Suc k..<Suc k + p]"
      "adaptations e2 \<le> p" "p \<le> adaptations e2 + 1" "counter_matches (Suc k) e2"
      by blast
    from True e1 have a1: "adaptations e1 = 1" by simp
    let ?es = "GoMetric (int k) r b # e1 @ e2"
    have "trace (snd (adapt_loop E a tc (map int [k..<k + Suc n]) s)) = trace s @ ?es"
      using r e1(1) e2(1) by simp
    moreover have "Suc p \<le> Suc n" using e2(2) by simp
    moreover have "solves ?es = map int [k..<k + Suc p]"
      using e1(2) e2(3) by (simp add: solves_append upt_conv_Cons)
    moreover have "adaptations ?es \<le> Suc p" "Suc p \<le> adaptations ?es + 1"
      using a1 e2(4,5) by (simp_all add: adaptations_append)
    moreover have "counter_matches k ?es"
      using c1 a1 e2(6) by (simp add: counter_matches_append)
    ultimately show ?thesis by blast
  next
    case False
    then have r: "snd (adapt_loop E a tc (map int [k..<k + Suc n]) s) = snd ?b"
      unfolding l by (cases "fst ?b") (simp_all add: adapt_loop_Cons del: adapt_loop.simps)
    let ?es = "GoMetric (int k) r b # e1"
    have "trace (snd (adapt_loop E a tc (map int [k..<k + Suc n]) s)) = trace s @ ?es"
      using r e1(1) by simp
    moreover have "Suc 0 \<le> Suc n" by simp
    moreover have "solves ?es = map int [k..<k + Suc 0]"
      using e1(2) by simp
    moreover have "adaptations ?es \<le> Suc 0" "Suc 0 \<le> adaptations ?es + 1"
      using e1(3) by simp_all
    moreover have "counter_matches k ?es"
      using c1 by simp
    ultimately show ?thesis by blast
  qed
qed

lemma initial_trace:
  "solves (trace (initial_state E a tc)) = []"
  "adaptations (trace (initial_state E a tc)) = 0"
  by (simp_all add: initial_state_def Let_def)

lemma loop_from_initial:
  "\<exists>es p. trace (snd (adapt_loop E a tc [0..m] s)) = trace s @ es
        \<and> p \<le> nat (m + 1) \<and> solves es = map int [0..<p]
        \<and> adaptations es \<le> p \<and> p \<le> adaptations es + 1
        \<and> counter_matches 0 es"
  using loop_passes [of E a tc 0 "nat (m + 1)" s] unfolding range_maxiter by simp

text \<open>
  Claim C4, as the code has it. Every pass of the loop starts with one call of
  \<open>go_metric\<close>, made with the counter the \<open>for\<close> has just assigned. In every run there
  are at most \<open>maxiter + 1\<close> such calls; their counters are 0, 1, 2, \<dots> in order, so the
  counter never decreases; at every call the counter equals the number of mesh
  adaptations performed so far; and the number of adaptations of the whole run is the
  number of passes or one less.
\<close>

theorem adaptation_loop_passes:
  "parse_test_case (test_case_arg a) = Inr tc \<and> run_adapt E a = Inr (r, s) \<longrightarrow>
     length (solves (trace s))
       \<le> nat (maxiter (convergence_tracker E (load_mesh E (model a) tc)) + 1)
     \<and> solves (trace s) = map int [0..<length (solves (trace s))]
     \<and> sorted (solves (trace s))
     \<and> counter_matches 0 (trace s)
     \<and> adaptations (trace s) \<le> length (solves (trace s))
     \<and> length (solves (trace s)) \<le> adaptations (trace s) + 1"
proof
  assume h: "parse_test_case (test_case_arg a) = Inr tc \<and> run_adapt E a = Inr (r, s)"
  let ?s0 = "initial_state E a tc"
  let ?m = "maxiter (ct ?s0)"
  let ?l = "adapt_loop E a tc [0..?m] ?s0"
  have m: "?m = maxiter (convergence_tracker E (load_mesh E (model a) tc))"
    by (simp add: initial_state_def Let_def)
  from loop_from_initial [of E a tc ?m ?s0]
  obtain es p where es: "trace (snd ?l) = trace ?s0 @ es" "p \<le> nat (?m + 1)"
    "solves es = map int [0..<p]" "adaptations es \<le> p" "p \<le> adaptations es + 1"
    "counter_matches 0 es"
    by blast
  have "\<exists>tl. trace s = trace (snd ?l) @ tl \<and> solves tl = [] \<and> adaptations tl = 0"
  proof (cases "fst ?l")
    case None
    with h have "s = emit [Print (Terminated (fp_iteration (ct (snd ?l)) + 1)
                                   (converged_reason (ct (snd ?l))))] (snd ?l)"
      by (auto simp: run_adapt_def Let_def split: prod.splits option.splits)
    then show ?thesis by (simp add: emit_simps)
  next
    case (Some e)
    with h have "s = snd ?l"
      by (auto simp: run_adapt_def Let_def split: prod.splits option.splits)
    then show ?thesis by simp
  qed
  then obtain tl where tl: "trace s = trace (snd ?l) @ tl" "solves tl = []" "adaptations tl = 0"
    by blast
  have sv: "solves (trace s) = map int [0..<p]"
    using tl es by (simp add: solves_append initial_trace)
  have ad: "adaptations (trace s) = adaptations es"
    using tl es by (simp add: adaptations_append initial_trace)
  have cm: "counter_matches 0 (trace s)"
    using tl es
    by (simp add: counter_matches_append counter_matches_no_solves initial_trace)
  from sv have len: "length (solves (trace s)) = p" by simp
  show "length (solves (trace s))
       \<le> nat (maxiter (convergence_tracker E (load_mesh E (model a) tc)) + 1)
     \<and> solves (trace s) = map int [0..<length (solves (trace s))]
     \<and> sorted (solves (trace s))
     \<and> counter_matches 0 (trace s)
     \<and> adaptations (trace s) \<le> length (solves (trace s))
     \<and> length (solves (trace s)) \<le> adaptations (trace s) + 1"
    unfolding len using sv ad cm es(2,4,5) m
    by (simp add: sorted_map)
qed

theorem adaptation_loop_passes_witness:
  "solves (trace (snd (projr
        (run_adapt (example_services 0 example_bundle [Finite 1]) example_args)))) = [0]
   \<and> counter_matches 0 (trace (snd (projr
        (run_adapt (example_services 0 example_bundle [Finite 1]) example_args))))
   \<and> adaptations (trace (snd (projr
        (run_adapt (example_services 0 example_bundle [Finite 1]) example_args)))) = 1
   \<and> solves (trace (snd (projr
        (run_adapt (example_services 1 (example_bundle\<lparr>out_adjoint := None\<rparr>) [])
           example_args)))) = [0]
   \<and> counter_matches 0 (trace (snd (projr
        (run_adapt (example_services 1 (example_bundle\<lparr>out_adjoint := None\<rparr>) [])
           example_args))))
   \<and> adaptations (trace (snd (projr
        (run_adapt (example_services 1 (example_bundle\<lparr>out_adjoint := None\<rparr>) [])
           example_args)))) = 0"
proof -
  let ?E1 = "example_services 0 example_bundle [Finite 1]"
  let ?E2 = "example_services 1 (example_bundle\<lparr>out_adjoint := None\<rparr>) []"
  have p: "parse_test_case (test_case_arg example_args) = Inr (TcInt 1)"
    by code_simp
  have "\<not> isl (run_adapt ?E1 example_args)"
    by (simp add: run_adapt_def p Let_def split: prod.splits option.splits)
  then have r1: "run_adapt ?E1 example_args
      = Inr (fst (projr (run_adapt ?E1 example_args)), snd (projr (run_adapt ?E1 example_args)))"
    by (cases "run_adapt ?E1 example_args") simp_all
  have "\<not> isl (run_adapt ?E2 example_args)"
    by (simp add: run_adapt_def p Let_def split: prod.splits option.splits)
  then have r2: "run_adapt ?E2 example_args
      = Inr (fst (projr (run_adapt ?E2 example_args)), snd (projr (run_adapt ?E2 example_args)))"
    by (cases "run_adapt ?E2 example_args") simp_all
  have v1: "solves (trace (snd (projr (run_adapt ?E1 example_args)))) = [0]"
    by code_simp
  have n1: "adaptations (trace (snd (projr (run_adapt ?E1 example_args)))) = 1"
    by code_simp
  have v2: "solves (trace (snd (projr (run_adapt ?E2 example_args)))) = [0]"
    by code_simp
  have n2: "adaptations (trace (snd (projr (run_adapt ?E2 example_args)))) = 0"
    by code_simp
  from adaptation_loop_passes [where E = ?E1 and a = example_args and tc = "TcInt 1"
      and r = "fst (projr (run_adapt ?E1 example_args))"
      and s = "snd (projr (run_adapt ?E1 example_args))", THEN mp, OF conjI [OF p r1]]
  have c1: "counter_matches 0 (trace (snd (projr (run_adapt ?E1 example_args))))"
    by simp
  from adaptation_loop_passes [where E = ?E2 and a = example_args and tc = "TcInt 1"
      and r = "fst (projr (run_adapt ?E2 example_args))"
      and s = "snd (projr (run_adapt ?E2 example_args))", THEN mp, OF conjI [OF p r2]]
  have c2: "counter_matches 0 (trace (snd (projr (run_adapt ?E2 example_args))))"
    by simp
  from v1 n1 c1 v2 n2 c2 show ?thesis
    by (intro conjI)
qed

text \<open>
  The claim as stated fails at the end of a run whose last pass adapts the mesh: with
  \<open>maxiter = 0\<close> the run makes one pass and one adaptation, and the counter is 0.
\<close>

theorem counter_after_run_counterexample:
  "fst (projr (run_adapt (example_services 0 example_bundle [Finite 2]) example_args)) = None
   \<and> fp_iteration (ct (snd (projr
        (run_adapt (example_services 0 example_bundle [Finite 2]) example_args)))) = 0
   \<and> adaptations (trace (snd (projr
        (run_adapt (example_services 0 example_bundle [Finite 2]) example_args)))) = 1"
  by (intro conjI; code_simp)

end
